theory Spec2Isabelle
  imports Complex_Main "HOL-Library.List_Lexorder" "HOL-Library.Char_ord"
begin

section \<open>The cross-section spline list of GENIE (XSecSplineList.cxx)\<close>

text \<open>
  The theory embeds \<^verbatim>\<open>genie::XSecSplineList\<close>: the key of a spline, the setters of the
  list-wide defaults, \<^verbatim>\<open>CreateSpline\<close> with its knot placement, and the XML writer and
  streaming reader. The list is a record that every operation takes and returns; the
  interaction, which \<^verbatim>\<open>CreateSpline\<close> mutates through its pointer, is returned as well.
\<close>

subsection \<open>Doubles\<close>

text \<open>
  A \<^verbatim>\<open>double\<close> is a real number, one of the two infinities, or NaN. An arithmetic
  operation on finite values gives the exact result rounded to a double: the rounding
  \<open>rnd\<close> is a parameter, and a theorem assumes of it only what it states (that it is
  monotone, that it keeps 0, that it keeps a number the code is given as a double).
  Overflow and the sign of zero are not modelled; the special values follow IEEE 754,
  so that a division by zero is an infinity or NaN and not a number.
\<close>

datatype dbl = Fin real | PInf | MInf | NaN

fun dneg :: "dbl \<Rightarrow> dbl" where
  "dneg (Fin x) = Fin (- x)"
| "dneg PInf = MInf"
| "dneg MInf = PInf"
| "dneg NaN = NaN"

fun dadd :: "(real \<Rightarrow> real) \<Rightarrow> dbl \<Rightarrow> dbl \<Rightarrow> dbl" where
  "dadd rnd (Fin x) (Fin y) = Fin (rnd (x + y))"
| "dadd rnd NaN b = NaN"
| "dadd rnd a NaN = NaN"
| "dadd rnd PInf MInf = NaN"
| "dadd rnd MInf PInf = NaN"
| "dadd rnd PInf b = PInf"
| "dadd rnd a PInf = PInf"
| "dadd rnd MInf b = MInf"
| "dadd rnd a MInf = MInf"

definition dsub :: "(real \<Rightarrow> real) \<Rightarrow> dbl \<Rightarrow> dbl \<Rightarrow> dbl" where
  "dsub rnd a b = dadd rnd a (dneg b)"

text \<open>The sign of an infinite product or quotient: \<open>pos\<close> tells whether it is positive.\<close>

definition inf_of :: "bool \<Rightarrow> dbl" where
  "inf_of pos = (if pos then PInf else MInf)"

fun dmul :: "(real \<Rightarrow> real) \<Rightarrow> dbl \<Rightarrow> dbl \<Rightarrow> dbl" where
  "dmul rnd (Fin x) (Fin y) = Fin (rnd (x * y))"
| "dmul rnd NaN b = NaN"
| "dmul rnd a NaN = NaN"
| "dmul rnd (Fin x) PInf = (if x = 0 then NaN else inf_of (0 < x))"
| "dmul rnd (Fin x) MInf = (if x = 0 then NaN else inf_of (x < 0))"
| "dmul rnd PInf (Fin y) = (if y = 0 then NaN else inf_of (0 < y))"
| "dmul rnd MInf (Fin y) = (if y = 0 then NaN else inf_of (y < 0))"
| "dmul rnd PInf PInf = PInf"
| "dmul rnd PInf MInf = MInf"
| "dmul rnd MInf PInf = MInf"
| "dmul rnd MInf MInf = PInf"

text \<open>A finite divisor that is zero is the positive zero (every divisor of the code is
  converted from an \<^verbatim>\<open>int\<close>).\<close>

fun ddiv :: "(real \<Rightarrow> real) \<Rightarrow> dbl \<Rightarrow> dbl \<Rightarrow> dbl" where
  "ddiv rnd (Fin x) (Fin y) =
     (if y = 0 then (if x = 0 then NaN else inf_of (0 < x)) else Fin (rnd (x / y)))"
| "ddiv rnd NaN b = NaN"
| "ddiv rnd a NaN = NaN"
| "ddiv rnd (Fin x) PInf = Fin 0"
| "ddiv rnd (Fin x) MInf = Fin 0"
| "ddiv rnd PInf (Fin y) = inf_of (0 \<le> y)"
| "ddiv rnd MInf (Fin y) = inf_of (y < 0)"
| "ddiv rnd PInf b = NaN"
| "ddiv rnd MInf b = NaN"

text \<open>\<^verbatim>\<open>TMath::Sqrt\<close>: the square root, rounded.\<close>

fun dsqrt :: "(real \<Rightarrow> real) \<Rightarrow> dbl \<Rightarrow> dbl" where
  "dsqrt rnd (Fin x) = (if 0 \<le> x then Fin (rnd (sqrt x)) else NaN)"
| "dsqrt rnd PInf = PInf"
| "dsqrt rnd MInf = NaN"
| "dsqrt rnd NaN = NaN"

text \<open>The comparisons \<^verbatim>\<open>a < b\<close> and \<^verbatim>\<open>a <= b\<close>: false as soon as one side is NaN.\<close>

fun dlt :: "dbl \<Rightarrow> dbl \<Rightarrow> bool" where
  "dlt (Fin x) (Fin y) = (x < y)"
| "dlt NaN b = False"
| "dlt a NaN = False"
| "dlt a MInf = False"
| "dlt PInf b = False"
| "dlt MInf b = True"
| "dlt a PInf = True"

fun dle :: "dbl \<Rightarrow> dbl \<Rightarrow> bool" where
  "dle (Fin x) (Fin y) = (x \<le> y)"
| "dle NaN b = False"
| "dle a NaN = False"
| "dle MInf b = True"
| "dle a PInf = True"
| "dle a MInf = False"
| "dle PInf b = False"

text \<open>\<^verbatim>\<open>TMath::Max(a,b)\<close> is \<^verbatim>\<open>a >= b ? a : b\<close>.\<close>

definition dmax :: "dbl \<Rightarrow> dbl \<Rightarrow> dbl" where
  "dmax a b = (if dle b a then a else b)"

definition of_i :: "int \<Rightarrow> dbl" where
  "of_i i = Fin (of_int i)"

subsection \<open>The collaborators and the list\<close>

text \<open>
  What the list reads of an interaction: its string form, the threshold of its phase
  space, the mass of the probe and the probe's four-momentum \<open>(px, py, pz, E)\<close>, which
  \<^verbatim>\<open>SetProbeP4\<close> overwrites. What it reads of an algorithm: the name and the
  configuration of its id, and its integral, a function of the interaction.
\<close>

record Interaction =
  AsString :: string
  Threshold :: dbl
  ProbeMass :: dbl
  ProbeP4 :: "dbl \<times> dbl \<times> dbl \<times> dbl"

record XSecAlgorithmI =
  IdName :: string
  IdConfig :: string
  Integral :: "Interaction \<Rightarrow> dbl"

text \<open>A spline is the sequence of its knots \<open>(E, xsec)\<close>.\<close>

type_synonym Spline = "(dbl \<times> dbl) list"

text \<open>
  \<^verbatim>\<open>fSplineMap\<close> is a \<^verbatim>\<open>std::map<string, Spline *>\<close>: an association list kept in
  the order of its keys, the order in which the map is iterated. \<^verbatim>\<open>fInitSet\<close> is a
  \<^verbatim>\<open>std::set<string>\<close>.
\<close>

record XSecSplineList =
  fUseLogE :: bool
  fNKnots :: int
  fEmin :: dbl
  fEmax :: dbl
  fSplineMap :: "(string \<times> Spline) list"
  fInitSet :: "string set"

datatype error = NullPointer | AssertFailed | BadArraySize | OutOfBounds | UseAfterFree

text \<open>The list that the constructor builds.\<close>

definition XSecSplineList_new :: XSecSplineList where
  "XSecSplineList_new =
     \<lparr>fUseLogE = True, fNKnots = 100, fEmin = Fin (1 / 100), fEmax = Fin 100,
      fSplineMap = [], fInitSet = {}\<rparr>"

text \<open>\<^verbatim>\<open>std::map::insert\<close>: when the key is there already, the map is left as it is;
  otherwise the pair goes to its place in the order of the keys.\<close>

definition map_insert ::
  "string \<Rightarrow> Spline \<Rightarrow> (string \<times> Spline) list \<Rightarrow> (string \<times> Spline) list" where
  "map_insert key spline m =
     (if key \<in> fst ` set m then m else insort_key fst (key, spline) m)"

definition BuildSplineKey :: "XSecAlgorithmI option \<Rightarrow> Interaction option \<Rightarrow> string" where
  "BuildSplineKey alg interaction =
     (case alg of
        None \<Rightarrow> ''''
      | Some a \<Rightarrow>
          (case interaction of
             None \<Rightarrow> ''''
           | Some ia \<Rightarrow> IdName a @ ''/'' @ IdConfig a @ ''/'' @ AsString ia))"

definition SplineExists :: "XSecSplineList \<Rightarrow> string \<Rightarrow> bool" where
  "SplineExists st key = (key \<in> fst ` set (fSplineMap st))"

definition GetSpline :: "XSecSplineList \<Rightarrow> string \<Rightarrow> Spline option" where
  "GetSpline st key = (if SplineExists st key then map_of (fSplineMap st) key else None)"

definition GetSplineKeys :: "XSecSplineList \<Rightarrow> string list" where
  "GetSplineKeys st = map fst (fSplineMap st)"

definition SetLogE :: "XSecSplineList \<Rightarrow> bool \<Rightarrow> XSecSplineList" where
  "SetLogE st on = st\<lparr>fUseLogE := on\<rparr>"

definition SetNKnots :: "XSecSplineList \<Rightarrow> int \<Rightarrow> XSecSplineList" where
  "SetNKnots st nk =
     (let st1 = st\<lparr>fNKnots := nk\<rparr>
      in if fNKnots st1 < 10 then st1\<lparr>fNKnots := 10\<rparr> else st1)"

definition SetMinE :: "XSecSplineList \<Rightarrow> dbl \<Rightarrow> XSecSplineList" where
  "SetMinE st Ev = (if dlt (Fin 0) Ev then st\<lparr>fEmin := Ev\<rparr> else st)"

definition SetMaxE :: "XSecSplineList \<Rightarrow> dbl \<Rightarrow> XSecSplineList" where
  "SetMaxE st Ev = (if dlt (Fin 0) Ev then st\<lparr>fEmax := Ev\<rparr> else st)"

subsection \<open>Arrays and loops\<close>

text \<open>
  An array of doubles is the list of its cells. A cell that was never written holds
  whatever the memory held: \<open>junk\<close> gives that content, and every result is stated for
  all \<open>junk\<close>. A write or a read outside the array is undefined behaviour in C++: the
  model stops with \<open>OutOfBounds\<close>. An array of negative size stops with \<open>BadArraySize\<close>.
\<close>

definition new_array :: "(nat \<Rightarrow> dbl) \<Rightarrow> int \<Rightarrow> error + dbl list" where
  "new_array junk n = (if n < 0 then Inl BadArraySize else Inr (map junk [0..<nat n]))"

definition arr_write :: "dbl list \<Rightarrow> int \<Rightarrow> dbl \<Rightarrow> error + dbl list" where
  "arr_write a i v =
     (if 0 \<le> i \<and> i < int (length a) then Inr (a[nat i := v]) else Inl OutOfBounds)"

definition arr_read :: "dbl list \<Rightarrow> int \<Rightarrow> error + dbl" where
  "arr_read a i =
     (if 0 \<le> i \<and> i < int (length a) then Inr (a ! nat i) else Inl OutOfBounds)"

text \<open>\<^verbatim>\<open>for(int i = i0; ...; i++) body\<close>, run for \<open>k\<close> rounds; the first error ends it.\<close>

fun for_loop :: "nat \<Rightarrow> int \<Rightarrow> (int \<Rightarrow> 's \<Rightarrow> error + 's) \<Rightarrow> 's \<Rightarrow> error + 's" where
  "for_loop 0 i body s = Inr s"
| "for_loop (Suc k) i body s =
     (case body i s of Inl e \<Rightarrow> Inl e | Inr s' \<Rightarrow> for_loop k (i + 1) body s')"

text \<open>\<^verbatim>\<open>new Spline(nknots, E, xsec)\<close> reads the first \<open>nknots\<close> cells of both arrays.\<close>

definition Spline_new :: "int \<Rightarrow> dbl list \<Rightarrow> dbl list \<Rightarrow> error + Spline" where
  "Spline_new nknots E xsec =
     (if nknots < 0 then Inl BadArraySize
      else if nat nknots \<le> length E \<and> nat nknots \<le> length xsec
      then Inr (zip (take (nat nknots) E) (take (nat nknots) xsec))
      else Inl OutOfBounds)"

subsection \<open>The libraries\<close>

text \<open>
  The functions of the C library, of ROOT and of \<^verbatim>\<open>utils::str\<close> that the code calls are
  parameters: the rounding of the machine's arithmetic, \<^verbatim>\<open>TMath::Log10\<close> and
  \<^verbatim>\<open>TMath::Power\<close> (of which nothing is assumed, not even that the one undoes the other),
  \<^verbatim>\<open>TrimSpaces\<close>, \<^verbatim>\<open>atoi\<close>, \<^verbatim>\<open>atof\<close>, the output of an \<^verbatim>\<open>int\<close> and of the two
  coordinates of a knot on a stream, and \<open>junk\<close>, the content of an array of doubles
  that was declared or allocated and not yet written.
\<close>

record extern =
  fl_round :: "real \<Rightarrow> real"
  TMath_Log10 :: "dbl \<Rightarrow> dbl"
  TMath_Power :: "dbl \<Rightarrow> dbl \<Rightarrow> dbl"
  TrimSpaces :: "string \<Rightarrow> string"
  atoi :: "string \<Rightarrow> int"
  atof :: "string \<Rightarrow> dbl"
  print_int :: "int \<Rightarrow> string"
  print_x :: "dbl \<Rightarrow> string"
  print_y :: "dbl \<Rightarrow> string"
  junk :: "nat \<Rightarrow> dbl"

subsection \<open>CreateSpline\<close>

text \<open>The body of the loop over the knots below the threshold: \<^verbatim>\<open>E[i] = e_min + i*dEb\<close>.\<close>

definition knot_below :: "extern \<Rightarrow> dbl \<Rightarrow> dbl \<Rightarrow> int \<Rightarrow> dbl" where
  "knot_below x e_min dEb i = dadd (fl_round x) e_min (dmul (fl_round x) (of_i i) dEb)"

text \<open>The body of the loop over the knots from the threshold on:
  \<^verbatim>\<open>TMath::Power(10., TMath::Log10(E0) + i * dEa)\<close> or \<^verbatim>\<open>E0 + i * dEa\<close>.\<close>

definition knot_above :: "extern \<Rightarrow> bool \<Rightarrow> dbl \<Rightarrow> dbl \<Rightarrow> int \<Rightarrow> dbl" where
  "knot_above x uselog E0 dEa i =
     (if uselog
      then TMath_Power x (Fin 10)
             (dadd (fl_round x) (TMath_Log10 x E0) (dmul (fl_round x) (of_i i) dEa))
      else dadd (fl_round x) E0 (dmul (fl_round x) (of_i i) dEa))"

text \<open>
  The knot energies, as the two loops write them into the array \<open>E\<close>. \<open>nknots\<close>,
  \<open>e_min\<close> and \<open>e_max\<close> are the values in force after the defaults were applied.
\<close>

definition plan_knots ::
  "extern \<Rightarrow> bool \<Rightarrow> dbl \<Rightarrow> int \<Rightarrow> dbl \<Rightarrow> dbl \<Rightarrow> dbl list \<Rightarrow> error + dbl list" where
  "plan_knots x uselog Ethr nknots e_min e_max E =
     (let nkb = (if dlt e_min Ethr then 5 else 0 :: int);
          nka = nknots - nkb;
          dEb = (if dlt e_min Ethr
                 then ddiv (fl_round x) (dsub (fl_round x) Ethr e_min) (of_i nkb) else Fin 0)
      in case for_loop (nat nkb) 0 (\<lambda>i a. arr_write a i (knot_below x e_min dEb i)) E of
           Inl e \<Rightarrow> Inl e
         | Inr E1 \<Rightarrow>
             (let E0 = dmax Ethr e_min;
                  dEa = (if uselog
                         then ddiv (fl_round x)
                                (dsub (fl_round x) (TMath_Log10 x e_max) (TMath_Log10 x E0))
                                (of_i (nka - 1))
                         else ddiv (fl_round x) (dsub (fl_round x) e_max E0) (of_i (nka - 1)))
              in for_loop (nat nka) 0
                   (\<lambda>i a. arr_write a (i + nkb) (knot_above x uselog E0 dEa i)) E1))"

text \<open>
  The probe's four-momentum at the knot energy \<open>e\<close>: \<^verbatim>\<open>p4(0,0,E[i],E[i])\<close>, with
  \<open>pz\<close> replaced by \<open>sqrt (max 0 (E\<^sup>2 - m\<^sup>2))\<close> when the probe has a mass.
\<close>

definition probe_p4 :: "extern \<Rightarrow> dbl \<Rightarrow> dbl \<Rightarrow> dbl \<times> dbl \<times> dbl \<times> dbl" where
  "probe_p4 x pr_mass e =
     (if dlt (Fin 0) pr_mass
      then (Fin 0, Fin 0,
            dsqrt (fl_round x)
              (dmax (Fin 0)
                 (dsub (fl_round x) (dmul (fl_round x) e e) (dmul (fl_round x) pr_mass pr_mass))),
            e)
      else (Fin 0, Fin 0, e, e))"

text \<open>One round of the loop over the cross sections: it sets the probe's momentum on the
  interaction and stores the integral.\<close>

definition xsec_step ::
  "extern \<Rightarrow> XSecAlgorithmI \<Rightarrow> dbl \<Rightarrow> dbl list \<Rightarrow> int \<Rightarrow> dbl list \<times> Interaction
     \<Rightarrow> error + (dbl list \<times> Interaction)" where
  "xsec_step x a pr_mass E i s =
     (case arr_read E i of
        Inl e \<Rightarrow> Inl e
      | Inr e \<Rightarrow>
          (let ia = (snd s)\<lparr>ProbeP4 := probe_p4 x pr_mass e\<rparr>
           in case arr_write (fst s) i (Integral a ia) of
                Inl err \<Rightarrow> Inl err
              | Inr xs \<Rightarrow> Inr (xs, ia)))"

text \<open>
  \<^verbatim>\<open>CreateSpline\<close> up to \<^verbatim>\<open>new Spline(nknots, E, xsec)\<close>: the key, the spline that
  the call builds, and the interaction as the loop over the cross sections leaves it.
  The two arrays are declared with the \<open>nknots\<close> of the call, before the default
  replaces a value of 2 or less. Dereferencing a null algorithm or interaction stops
  with \<open>NullPointer\<close>, the failed assertion with \<open>AssertFailed\<close>.
\<close>

definition build_spline ::
  "extern \<Rightarrow> XSecSplineList \<Rightarrow> XSecAlgorithmI option \<Rightarrow> Interaction option
     \<Rightarrow> int \<Rightarrow> dbl \<Rightarrow> dbl \<Rightarrow> error + (string \<times> Spline \<times> Interaction)" where
  "build_spline x st alg interaction nknots0 e_min0 e_max0 =
     (case new_array (junk x) nknots0 of
        Inl e \<Rightarrow> Inl e
      | Inr arr \<Rightarrow>
     (case alg of
        None \<Rightarrow> Inl NullPointer
      | Some a \<Rightarrow>
     (let key = BuildSplineKey alg interaction;
          e_min = (if dlt e_min0 (Fin 0) then fEmin st else e_min0);
          e_max = (if dlt e_max0 (Fin 0) then fEmax st else e_max0);
          nknots = (if nknots0 \<le> 2 then fNKnots st else nknots0)
      in if \<not> dlt e_min e_max then Inl AssertFailed
         else
     (case interaction of
        None \<Rightarrow> Inl NullPointer
      | Some ia \<Rightarrow>
     (case plan_knots x (fUseLogE st) (Threshold ia) nknots e_min e_max arr of
        Inl e \<Rightarrow> Inl e
      | Inr E \<Rightarrow>
     (case for_loop (nat nknots) 0 (xsec_step x a (ProbeMass ia) E) (arr, ia) of
        Inl e \<Rightarrow> Inl e
      | Inr (xsec, ia') \<Rightarrow>
     (case Spline_new nknots E xsec of
        Inl e \<Rightarrow> Inl e
      | Inr spline \<Rightarrow> Inr (key, spline, ia'))))))))"

text \<open>\<^verbatim>\<open>CreateSpline\<close>: the spline built is handed to \<^verbatim>\<open>fSplineMap.insert\<close>.\<close>

definition CreateSpline ::
  "extern \<Rightarrow> XSecSplineList \<Rightarrow> XSecAlgorithmI option \<Rightarrow> Interaction option
     \<Rightarrow> int \<Rightarrow> dbl \<Rightarrow> dbl \<Rightarrow> error + (XSecSplineList \<times> Interaction)" where
  "CreateSpline x st alg interaction nknots0 e_min0 e_max0 =
     (case build_spline x st alg interaction nknots0 e_min0 e_max0 of
        Inl e \<Rightarrow> Inl e
      | Inr (key, spline, ia') \<Rightarrow>
          Inr (st\<lparr>fSplineMap := map_insert key spline (fSplineMap st)\<rparr>, ia'))"

subsection \<open>Files and the XML reader\<close>

text \<open>
  A node as \<^verbatim>\<open>xmlTextReader\<close> presents it: name, value, type, depth, and the attributes
  that \<^verbatim>\<open>xmlTextReaderGetAttribute\<close> looks up. A file that opens is the sequence of
  nodes on which \<^verbatim>\<open>xmlTextReaderRead\<close> returns 1, and the value, 0 or -1, that it
  returns after them.
\<close>

record xmlnode =
  node_name :: string
  node_value :: string
  node_type :: int
  node_depth :: int
  node_attrs :: "(string \<times> string) list"

datatype reader = Reader "xmlnode list" int

text \<open>The file system: what \<^verbatim>\<open>xmlNewTextReaderFilename\<close> returns for a name (\<open>None\<close> is
  the null reader), and whether an \<^verbatim>\<open>ofstream\<close> on the name opens.\<close>

record fsys =
  readable :: "string \<Rightarrow> reader option"
  creatable :: "string \<Rightarrow> bool"

datatype XmlParserStatus_t = kXmlOK | kXmlNotParsed | kXmlEmpty | kXmlInvalidRoot

text \<open>A pointer to an array of doubles: null, allocated, or deleted and left dangling.\<close>

datatype arr = Null | Alloc "dbl list" | Freed

text \<open>The list and the local variables of \<^verbatim>\<open>LoadFromXml\<close> that live across the loop.\<close>

record pstate =
  p_list :: XSecSplineList
  p_val_type :: int
  p_iknot :: int
  p_nknots :: int
  p_E :: arr
  p_xsec :: arr
  p_spline_name :: string

text \<open>What one round of the loop comes to: undefined behaviour, a \<^verbatim>\<open>return\<close> out of the
  loop, or the next round.\<close>

datatype outcome = Fault error | Return XmlParserStatus_t pstate | Next pstate

definition and_then :: "outcome \<Rightarrow> (pstate \<Rightarrow> outcome) \<Rightarrow> outcome" where
  "and_then r f = (case r of Next p \<Rightarrow> f p | Fault e \<Rightarrow> Fault e | Return s p \<Rightarrow> Return s p)"

definition kNodeTypeStartElement :: int where
  "kNodeTypeStartElement = 1"

definition kNodeTypeEndElement :: int where
  "kNodeTypeEndElement = 15"

definition kKnotX :: int where
  "kKnotX = 0"

definition kKnotY :: int where
  "kKnotY = 1"

text \<open>The start of the root element: the check of its name, and the \<open>uselog\<close>
  attribute. An attribute that is missing is a null pointer handed to \<^verbatim>\<open>TrimSpaces\<close>.\<close>

definition on_root :: "extern \<Rightarrow> xmlnode \<Rightarrow> pstate \<Rightarrow> outcome" where
  "on_root x n p =
     (if node_depth n = 0 \<and> node_type n = kNodeTypeStartElement then
        (if node_name n \<noteq> ''genie_xsec_spline_list'' then Return kXmlInvalidRoot p
         else
           (case map_of (node_attrs n) ''version'' of
              None \<Rightarrow> Fault NullPointer
            | Some xvrs \<Rightarrow>
                (case map_of (node_attrs n) ''uselog'' of
                   None \<Rightarrow> Fault NullPointer
                 | Some xinlog \<Rightarrow>
                     (if atoi x (TrimSpaces x xinlog) = 1
                      then Next (p\<lparr>p_list := SetLogE (p_list p) True\<rparr>)
                      else Next (p\<lparr>p_list := SetLogE (p_list p) False\<rparr>)))))
      else Next p)"

text \<open>The start of a \<open>spline\<close> element: the name, the number of knots, two new arrays.\<close>

definition on_spline_start :: "extern \<Rightarrow> xmlnode \<Rightarrow> pstate \<Rightarrow> outcome" where
  "on_spline_start x n p =
     (if node_name n = ''spline'' \<and> node_type n = kNodeTypeStartElement then
        (case map_of (node_attrs n) ''name'' of
           None \<Rightarrow> Fault NullPointer
         | Some xname \<Rightarrow>
             (case map_of (node_attrs n) ''nknots'' of
                None \<Rightarrow> Fault NullPointer
              | Some xnkn \<Rightarrow>
                  (let nk = atoi x (TrimSpaces x xnkn)
                   in case new_array (junk x) nk of
                        Inl e \<Rightarrow> Fault e
                      | Inr a \<Rightarrow>
                          Next (p\<lparr>p_spline_name := TrimSpaces x xname, p_nknots := nk,
                                  p_iknot := 0, p_E := Alloc a, p_xsec := Alloc a\<rparr>))))
      else Next p)"

definition on_E_start :: "xmlnode \<Rightarrow> pstate \<Rightarrow> outcome" where
  "on_E_start n p =
     (if node_name n = ''E'' \<and> node_type n = kNodeTypeStartElement
      then Next (p\<lparr>p_val_type := kKnotX\<rparr>) else Next p)"

definition on_xsec_start :: "xmlnode \<Rightarrow> pstate \<Rightarrow> outcome" where
  "on_xsec_start n p =
     (if node_name n = ''xsec'' \<and> node_type n = kNodeTypeStartElement
      then Next (p\<lparr>p_val_type := kKnotY\<rparr>) else Next p)"

text \<open>A write through a pointer to an array.\<close>

definition ptr_write :: "arr \<Rightarrow> int \<Rightarrow> dbl \<Rightarrow> error + arr" where
  "ptr_write a i v =
     (case a of
        Null \<Rightarrow> Inl NullPointer
      | Freed \<Rightarrow> Inl UseAfterFree
      | Alloc cells \<Rightarrow>
          (case arr_write cells i v of Inl e \<Rightarrow> Inl e | Inr cells' \<Rightarrow> Inr (Alloc cells')))"

text \<open>A text node at depth 4: the value goes to the energy or to the cross section of
  the current knot, after the element that started last.\<close>

definition on_text :: "extern \<Rightarrow> xmlnode \<Rightarrow> pstate \<Rightarrow> outcome" where
  "on_text x n p =
     (if node_name n = ''#text'' \<and> node_depth n = 4 then
        (if p_val_type p = kKnotX then
           (case ptr_write (p_E p) (p_iknot p) (atof x (node_value n)) of
              Inl e \<Rightarrow> Fault e
            | Inr a \<Rightarrow> Next (p\<lparr>p_E := a\<rparr>))
         else if p_val_type p = kKnotY then
           (case ptr_write (p_xsec p) (p_iknot p) (atof x (node_value n)) of
              Inl e \<Rightarrow> Fault e
            | Inr a \<Rightarrow> Next (p\<lparr>p_xsec := a\<rparr>))
         else Next p)
      else Next p)"

definition on_knot_end :: "xmlnode \<Rightarrow> pstate \<Rightarrow> outcome" where
  "on_knot_end n p =
     (if node_name n = ''knot'' \<and> node_type n = kNodeTypeEndElement
      then Next (p\<lparr>p_iknot := p_iknot p + 1\<rparr>) else Next p)"

text \<open>The cells behind a pointer, as \<^verbatim>\<open>new Spline\<close> reads them, and the pointer after
  \<^verbatim>\<open>delete []\<close>, which leaves a null pointer null.\<close>

definition ptr_cells :: "arr \<Rightarrow> error + dbl list" where
  "ptr_cells a =
     (case a of Null \<Rightarrow> Inr [] | Freed \<Rightarrow> Inl UseAfterFree | Alloc cells \<Rightarrow> Inr cells)"

definition ptr_delete :: "arr \<Rightarrow> arr" where
  "ptr_delete a = (case a of Null \<Rightarrow> Null | Freed \<Rightarrow> Freed | Alloc cells \<Rightarrow> Freed)"

text \<open>The end of a \<open>spline\<close> element: the spline is built from the two arrays, the
  arrays are deleted, the spline is inserted and its name joins \<^verbatim>\<open>fInitSet\<close>.\<close>

definition on_spline_end :: "xmlnode \<Rightarrow> pstate \<Rightarrow> outcome" where
  "on_spline_end n p =
     (if node_name n = ''spline'' \<and> node_type n = kNodeTypeEndElement then
        (case ptr_cells (p_E p) of
           Inl e \<Rightarrow> Fault e
         | Inr E \<Rightarrow>
             (case ptr_cells (p_xsec p) of
                Inl e \<Rightarrow> Fault e
              | Inr xsec \<Rightarrow>
                  (case Spline_new (p_nknots p) E xsec of
                     Inl e \<Rightarrow> Fault e
                   | Inr spline \<Rightarrow>
                       Next (p\<lparr>p_E := ptr_delete (p_E p), p_xsec := ptr_delete (p_xsec p),
                               p_list := (p_list p)
                                 \<lparr>fSplineMap :=
                                    map_insert (p_spline_name p) spline (fSplineMap (p_list p)),
                                  fInitSet := insert (p_spline_name p) (fInitSet (p_list p))\<rparr>\<rparr>))))
      else Next p)"

text \<open>The body of the loop: the tests follow one another, none excludes the next.\<close>

definition process_node :: "extern \<Rightarrow> pstate \<Rightarrow> xmlnode \<Rightarrow> outcome" where
  "process_node x p n =
     and_then (and_then (and_then (and_then (and_then (and_then
       (on_root x n p)
       (on_spline_start x n))
       (on_E_start n))
       (on_xsec_start n))
       (on_text x n))
       (on_knot_end n))
       (on_spline_end n)"

fun read_nodes :: "extern \<Rightarrow> pstate \<Rightarrow> xmlnode list \<Rightarrow> outcome" where
  "read_nodes x p [] = Next p"
| "read_nodes x p (n # ns) =
     (case process_node x p n of
        Next p' \<Rightarrow> read_nodes x p' ns
      | Fault e \<Rightarrow> Fault e
      | Return s p' \<Rightarrow> Return s p')"

definition pstate_init :: "XSecSplineList \<Rightarrow> pstate" where
  "pstate_init st =
     \<lparr>p_list = st, p_val_type = - 1, p_iknot = 0, p_nknots = 0, p_E = Null, p_xsec = Null,
      p_spline_name = []\<rparr>"

text \<open>
  \<^verbatim>\<open>LoadFromXml\<close>: the status and the list. Without \<open>keep\<close> the map is cleared first,
  then the reader is opened.
\<close>

definition LoadFromXml ::
  "extern \<Rightarrow> fsys \<Rightarrow> XSecSplineList \<Rightarrow> string \<Rightarrow> bool
     \<Rightarrow> error + (XmlParserStatus_t \<times> XSecSplineList)" where
  "LoadFromXml x fs st filename keep =
     (let st1 = (if \<not> keep then st\<lparr>fSplineMap := []\<rparr> else st)
      in case readable fs filename of
           None \<Rightarrow> Inr (kXmlOK, st1)
         | Some (Reader nodes ret) \<Rightarrow>
             (case read_nodes x (pstate_init st1) nodes of
                Fault e \<Rightarrow> Inl e
              | Return s p \<Rightarrow> Inr (s, p_list p)
              | Next p \<Rightarrow>
                  (if ret \<noteq> 0 then Inr (kXmlNotParsed, p_list p)
                   else Inr (kXmlOK, p_list p))))"

text \<open>The start of the root element, and a node of the prolog: a node at depth 0 that is
  neither the start nor the end of an element (a comment, a processing instruction,
  the document type).\<close>

definition root_start :: "xmlnode \<Rightarrow> bool" where
  "root_start n = (node_depth n = 0 \<and> node_type n = kNodeTypeStartElement)"

definition prolog_node :: "xmlnode \<Rightarrow> bool" where
  "prolog_node n =
     (node_depth n = 0 \<and> node_type n \<noteq> kNodeTypeStartElement
        \<and> node_type n \<noteq> kNodeTypeEndElement)"

subsection \<open>The XML writer\<close>

text \<open>
  A file that was written is represented by the nodes that the reader presents for it:
  the translation of the text into nodes is libxml2's, and keys and numbers are taken
  to hold no character of XML markup. White space between two tags is a text node one
  level below the enclosing element.
\<close>

definition elem_start :: "string \<Rightarrow> int \<Rightarrow> (string \<times> string) list \<Rightarrow> xmlnode" where
  "elem_start nm d as =
     \<lparr>node_name = nm, node_value = [], node_type = 1, node_depth = d, node_attrs = as\<rparr>"

definition elem_end :: "string \<Rightarrow> int \<Rightarrow> xmlnode" where
  "elem_end nm d =
     \<lparr>node_name = nm, node_value = [], node_type = 15, node_depth = d, node_attrs = []\<rparr>"

definition text_node :: "string \<Rightarrow> int \<Rightarrow> xmlnode" where
  "text_node v d =
     \<lparr>node_name = ''#text'', node_value = v, node_type = 3, node_depth = d, node_attrs = []\<rparr>"

definition white_space :: "int \<Rightarrow> xmlnode" where
  "white_space d =
     \<lparr>node_name = ''#text'', node_value = '' '', node_type = 14, node_depth = d,
      node_attrs = []\<rparr>"

definition comment_node :: "string \<Rightarrow> int \<Rightarrow> xmlnode" where
  "comment_node v d =
     \<lparr>node_name = ''#comment'', node_value = v, node_type = 8, node_depth = d,
      node_attrs = []\<rparr>"

text \<open>
  Modelled from the spec: \<^verbatim>\<open>Spline::SaveAsXml\<close> (Framework/Numerical/Spline.cxx) is not
  among the sources. Each spline block carries the attributes \<open>name\<close> and \<open>nknots\<close>
  and contains one \<open>knot\<close> element for each knot, in order, each with an energy child
  and a cross-section child holding decimal text. The blocks are children of the
  root, so the \<open>spline\<close> element is at depth 1.
\<close>

definition knot_nodes :: "extern \<Rightarrow> string \<Rightarrow> string \<Rightarrow> dbl \<times> dbl \<Rightarrow> xmlnode list" where
  "knot_nodes x xtag ytag k =
     [elem_start ''knot'' 2 [], white_space 3,
      elem_start xtag 3 [], text_node (print_x x (fst k)) 4, elem_end xtag 3, white_space 3,
      elem_start ytag 3 [], text_node (print_y x (snd k)) 4, elem_end ytag 3, white_space 3,
      elem_end ''knot'' 2, white_space 2]"

definition Spline_SaveAsXml ::
  "extern \<Rightarrow> Spline \<Rightarrow> string \<Rightarrow> string \<Rightarrow> string \<Rightarrow> xmlnode list" where
  "Spline_SaveAsXml x spline xtag ytag name =
     [elem_start ''spline'' 1
        [(''name'', name), (''nknots'', print_int x (int (length spline)))],
      white_space 2]
     @ concat (map (knot_nodes x xtag ytag) spline)
     @ [elem_end ''spline'' 1, white_space 1]"

text \<open>The loop of \<^verbatim>\<open>XSecSplineList::SaveAsXml\<close> over the map, in the order of the keys:
  a spline of the initially loaded set is skipped unless \<open>save_init\<close> is set.\<close>

fun save_splines ::
  "extern \<Rightarrow> string set \<Rightarrow> bool \<Rightarrow> (string \<times> Spline) list \<Rightarrow> xmlnode list" where
  "save_splines x init save_init [] = []"
| "save_splines x init save_init ((key, spline) # m) =
     (if key \<in> init \<and> \<not> save_init then save_splines x init save_init m
      else Spline_SaveAsXml x spline ''E'' ''xsec'' key @ save_splines x init save_init m)"

definition document :: "extern \<Rightarrow> XSecSplineList \<Rightarrow> bool \<Rightarrow> xmlnode list" where
  "document x st save_init =
     [comment_node '' generated by genie::XSecSplineList::SaveSplineList() '' 0,
      elem_start ''genie_xsec_spline_list'' 0
        [(''version'', ''2.00''), (''uselog'', print_int x (if fUseLogE st then 1 else 0))],
      white_space 1]
     @ save_splines x (fInitSet st) save_init (fSplineMap st)
     @ [elem_end ''genie_xsec_spline_list'' 0]"

text \<open>\<^verbatim>\<open>XSecSplineList::SaveAsXml\<close>: nothing is written when the file cannot be created.\<close>

definition SaveAsXml :: "extern \<Rightarrow> fsys \<Rightarrow> XSecSplineList \<Rightarrow> string \<Rightarrow> bool \<Rightarrow> fsys" where
  "SaveAsXml x fs st filename save_init =
     (if \<not> creatable fs filename then fs
      else fs\<lparr>readable := (readable fs)(filename := Some (Reader (document x st save_init) 0))\<rparr>)"

subsection \<open>Lists that only CreateSpline filled\<close>


subsection \<open>Reading back what was written\<close>

text \<open>A knot after it was written and read back: each coordinate went through its
  output on the stream and through \<^verbatim>\<open>atof\<close>.\<close>

definition reread :: "extern \<Rightarrow> Spline \<Rightarrow> Spline" where
  "reread x sp = map (\<lambda>k. (atof x (print_x x (fst k)), atof x (print_y x (snd k)))) sp"

text \<open>The state of the reader inside a \<open>spline\<close> element after the knots \<open>ks\<close>: both
  arrays have the declared size and hold the knots read so far at their front.\<close>

definition knots_read :: "extern \<Rightarrow> pstate \<Rightarrow> Spline \<Rightarrow> bool" where
  "knots_read x p ks =
     (\<exists>ea xa. p_E p = Alloc ea \<and> p_xsec p = Alloc xa
        \<and> 0 \<le> p_nknots p \<and> length ea = nat (p_nknots p) \<and> length xa = nat (p_nknots p)
        \<and> p_iknot p = int (length ks)
        \<and> take (length ks) ea = map (\<lambda>k. atof x (print_x x (fst k))) ks
        \<and> take (length ks) xa = map (\<lambda>k. atof x (print_y x (snd k))) ks)"

text \<open>The condition on the text functions under which a map is read back as it was
  written: \<^verbatim>\<open>TrimSpaces\<close> leaves each key as it is, and \<^verbatim>\<open>atoi\<close> reads each number of
  knots back.\<close>

definition text_ok :: "extern \<Rightarrow> (string \<times> Spline) list \<Rightarrow> bool" where
  "text_ok x m =
     (\<forall>e \<in> set m. TrimSpaces x (fst e) = fst e
        \<and> atoi x (TrimSpaces x (print_int x (int (length (snd e))))) = int (length (snd e)))"




text \<open>The entries that \<^verbatim>\<open>SaveAsXml\<close> writes.\<close>

definition saved :: "string set \<Rightarrow> bool \<Rightarrow> (string \<times> Spline) list \<Rightarrow> (string \<times> Spline) list" where
  "saved init save_init m = filter (\<lambda>e. \<not> (fst e \<in> init \<and> \<not> save_init)) m"

text \<open>A sequence of insertions into the map.\<close>

fun insert_all :: "(string \<times> Spline) list \<Rightarrow> (string \<times> Spline) list \<Rightarrow> (string \<times> Spline) list" where
  "insert_all [] m = m"
| "insert_all (e # es) m = insert_all es (map_insert (fst e) (snd e) m)"

subsection \<open>A small algorithm, interaction and list\<close>

text \<open>Concrete values on which the operations are run: an algorithm whose integral is
  the energy of the probe, an interaction with threshold 0 and a massless probe, and
  the lists that two calls of \<^verbatim>\<open>CreateSpline\<close> go through.\<close>

definition energy_integral :: "Interaction \<Rightarrow> dbl" where
  "energy_integral ia = snd (snd (snd (ProbeP4 ia)))"

definition nan_junk :: "nat \<Rightarrow> dbl" where
  "nan_junk i = NaN"

definition ex_alg :: XSecAlgorithmI where
  "ex_alg = \<lparr>IdName = ''A'', IdConfig = ''Default'', Integral = energy_integral\<rparr>"

definition ex_interaction :: Interaction where
  "ex_interaction =
     \<lparr>AsString = ''nu'', Threshold = Fin 0, ProbeMass = Fin 0,
      ProbeP4 = (Fin 0, Fin 0, Fin 0, Fin 0)\<rparr>"

definition ex_key :: string where
  "ex_key = ''A/Default/nu''"

definition ex_spline3 :: Spline where
  "ex_spline3 = [(Fin 1, Fin 1), (Fin 2, Fin 2), (Fin 3, Fin 3)]"

definition ex_spline4 :: Spline where
  "ex_spline4 = [(Fin 1, Fin 1), (Fin 2, Fin 2), (Fin 3, Fin 3), (Fin 4, Fin 4)]"

definition ex_store0 :: XSecSplineList where
  "ex_store0 = SetLogE XSecSplineList_new False"

definition ex_store1 :: XSecSplineList where
  "ex_store1 = ex_store0\<lparr>fSplineMap := [(ex_key, ex_spline3)]\<rparr>"

definition ex_ia :: "real \<Rightarrow> Interaction" where
  "ex_ia e = ex_interaction\<lparr>ProbeP4 := (Fin 0, Fin 0, Fin e, Fin e)\<rparr>"

text \<open>A machine whose arithmetic is exact, which it is on the small whole numbers of the
  examples, and whose logarithm and power are never called there (the examples space
  the knots linearly); text functions that print and read the numbers 0, 1, 2 and 3, a file system with
  no file in which every file can be created, and the lists that loads and saves of the
  small lists go through.\<close>

definition ex_print_int :: "int \<Rightarrow> string" where
  "ex_print_int n = (if n = 3 then ''3'' else if n = 1 then ''1'' else ''0'')"

definition ex_atoi :: "string \<Rightarrow> int" where
  "ex_atoi s = (if s = ''3'' then 3 else if s = ''1'' then 1 else 0)"

definition ex_print_dbl :: "dbl \<Rightarrow> string" where
  "ex_print_dbl v =
     (if v = Fin 1 then ''1'' else if v = Fin 2 then ''2'' else if v = Fin 3 then ''3''
      else ''0'')"

definition ex_atof :: "string \<Rightarrow> dbl" where
  "ex_atof s =
     (if s = ''1'' then Fin 1 else if s = ''2'' then Fin 2 else if s = ''3'' then Fin 3
      else Fin 0)"

definition exact_round :: "real \<Rightarrow> real" where
  "exact_round r = r"

definition no_log :: "dbl \<Rightarrow> dbl" where
  "no_log v = NaN"

definition no_power :: "dbl \<Rightarrow> dbl \<Rightarrow> dbl" where
  "no_power b v = NaN"

definition ex_trim :: "string \<Rightarrow> string" where
  "ex_trim s = s"

definition ex_extern :: extern where
  "ex_extern =
     \<lparr>fl_round = exact_round, TMath_Log10 = no_log, TMath_Power = no_power,
      TrimSpaces = ex_trim, atoi = ex_atoi, atof = ex_atof, print_int = ex_print_int,
      print_x = ex_print_dbl, print_y = ex_print_dbl, junk = nan_junk\<rparr>"

definition no_file :: "string \<Rightarrow> reader option" where
  "no_file f = None"

definition any_name :: "string \<Rightarrow> bool" where
  "any_name f = True"

definition ex_fs :: fsys where
  "ex_fs = \<lparr>readable = no_file, creatable = any_name\<rparr>"

text \<open>A second interaction and its key, the list of another run that holds it, and the
  file system after the list with the first key was saved to \<open>A.xml\<close> and the list with
  the second key to \<open>B.xml\<close>.\<close>

definition ex_interaction2 :: Interaction where
  "ex_interaction2 =
     \<lparr>AsString = ''nubar'', Threshold = Fin 0, ProbeMass = Fin 0,
      ProbeP4 = (Fin 0, Fin 0, Fin 0, Fin 0)\<rparr>"

definition ex_key2 :: string where
  "ex_key2 = ''A/Default/nubar''"

definition ex_store2 :: XSecSplineList where
  "ex_store2 = ex_store0\<lparr>fSplineMap := [(ex_key2, ex_spline3)]\<rparr>"

definition ex_files :: fsys where
  "ex_files =
     SaveAsXml ex_extern (SaveAsXml ex_extern ex_fs ex_store1 ''A.xml'' True)
       ex_store2 ''B.xml'' True"

text \<open>The list after \<open>A.xml\<close> was loaded (\<open>ex_storeA\<close>), after \<open>B.xml\<close> was then loaded
  without \<open>keep\<close> (\<open>ex_storeB\<close>), after the first key was then created again
  (\<open>ex_storeC\<close>), and after that list was saved without the loaded splines and the file
  loaded (\<open>ex_storeD\<close>); \<open>ex_storeE\<close> is \<open>ex_storeA\<close> after the second key was created.\<close>

definition ex_storeA :: XSecSplineList where
  "ex_storeA = ex_store0\<lparr>fSplineMap := [(ex_key, ex_spline3)], fInitSet := {ex_key}\<rparr>"

definition ex_storeB :: XSecSplineList where
  "ex_storeB =
     ex_store0\<lparr>fSplineMap := [(ex_key2, ex_spline3)], fInitSet := {ex_key, ex_key2}\<rparr>"

definition ex_storeC :: XSecSplineList where
  "ex_storeC =
     ex_store0\<lparr>fSplineMap := [(ex_key, ex_spline3), (ex_key2, ex_spline3)],
                fInitSet := {ex_key, ex_key2}\<rparr>"

definition ex_storeD :: XSecSplineList where
  "ex_storeD = ex_store0\<lparr>fSplineMap := [], fInitSet := {ex_key, ex_key2}\<rparr>"

definition ex_storeE :: XSecSplineList where
  "ex_storeE = ex_storeA\<lparr>fSplineMap := [(ex_key, ex_spline3), (ex_key2, ex_spline3)]\<rparr>"

text \<open>Two small files: one whose root is not a spline list, one with no spline.\<close>

definition ex_bad_doc :: "xmlnode list" where
  "ex_bad_doc =
     [comment_node '' not a spline list '' 0, elem_start ''spline_list'' 0 [],
      elem_end ''spline_list'' 0]"

definition ex_empty_doc :: "xmlnode list" where
  "ex_empty_doc =
     [elem_start ''genie_xsec_spline_list'' 0 [(''version'', ''2.00''), (''uselog'', ''1'')],
      elem_end ''genie_xsec_spline_list'' 0]"

definition ex_disk :: "string \<Rightarrow> reader option" where
  "ex_disk f =
     (if f = ''bad.xml'' then Some (Reader ex_bad_doc 0)
      else if f = ''empty.xml'' then Some (Reader ex_empty_doc 0) else None)"

definition ex_disk_fs :: fsys where
  "ex_disk_fs = \<lparr>readable = ex_disk, creatable = any_name\<rparr>"

section \<open>Properties\<close>

text \<open>
  C7. \<^verbatim>\<open>BuildSplineKey\<close> returns, for an algorithm and an interaction that are both
  there, the algorithm's name, its configuration and the interaction's string joined
  by \<open>/\<close>; it returns the empty string when the algorithm or the interaction is null.
  Being a function of these three strings, it gives equal keys for equal inputs.
\<close>

theorem BuildSplineKey_spec:
  "BuildSplineKey (Some a) (Some ia) = IdName a @ ''/'' @ IdConfig a @ ''/'' @ AsString ia
   \<and> BuildSplineKey None interaction = ''''
   \<and> BuildSplineKey alg None = ''''"
  by (simp add: BuildSplineKey_def split: option.split)

text \<open>
  C8. After \<^verbatim>\<open>SetNKnots(n)\<close> the default number of knots is 10 when \<open>n < 10\<close> and \<open>n\<close>
  when \<open>n \<ge> 10\<close>.
\<close>

theorem SetNKnots_floor:
  "(n < 10 \<longrightarrow> fNKnots (SetNKnots st n) = 10) \<and> (10 \<le> n \<longrightarrow> fNKnots (SetNKnots st n) = n)"
  by (simp add: SetNKnots_def Let_def)

theorem SetNKnots_floor_witness:
  "(3::int) < 10 \<and> fNKnots (SetNKnots XSecSplineList_new 3) = 10
   \<and> (10::int) \<le> 25 \<and> fNKnots (SetNKnots XSecSplineList_new 25) = 25"
  using SetNKnots_floor [of 3 XSecSplineList_new] SetNKnots_floor [of 25 XSecSplineList_new]
  by simp

subsection \<open>Running the operations on the small values\<close>

lemmas run_defs =
  CreateSpline_def build_spline_def new_array_def plan_knots_def Let_def eval_nat_numeral
  arr_write_def arr_read_def knot_below_def knot_above_def of_i_def dsub_def dmax_def
  xsec_step_def probe_p4_def Spline_new_def map_insert_def BuildSplineKey_def SetLogE_def
  XSecSplineList_new_def

lemmas ex_defs =
  ex_key_def ex_spline3_def ex_spline4_def ex_store0_def ex_store1_def ex_ia_def
  ex_alg_def ex_interaction_def energy_integral_def nan_junk_def

lemmas io_defs =
  exact_round_def no_log_def no_power_def
  ex_print_int_def ex_atoi_def ex_print_dbl_def ex_atof_def ex_trim_def ex_extern_def
  no_file_def any_name_def ex_fs_def

lemmas ex2_defs =
  ex_interaction2_def ex_key2_def ex_store2_def ex_files_def ex_storeA_def ex_storeB_def
  ex_storeC_def ex_storeD_def ex_storeE_def

subsection \<open>The placement of the knots\<close>
















subsection \<open>Insertion into the map\<close>

lemma map_insert_present: "key \<in> fst ` set m \<Longrightarrow> map_insert key spline m = m"
  by (simp add: map_insert_def)

lemma set_map_insert:
  "fst ` set (map_insert key spline m) = insert key (fst ` set m)"
  by (auto simp: map_insert_def set_insort_key)

lemma map_of_insort_key:
  "k \<notin> fst ` set m \<Longrightarrow> map_of (insort_key fst (k, v) m) = (map_of m)(k \<mapsto> v)"
proof (induction m)
  case Nil
  then show ?case by simp
next
  case (Cons a m)
  then show ?case by (cases a) (auto simp: fun_upd_twist)
qed

lemma map_of_map_insert:
  "map_of (map_insert k v m) = (if k \<in> fst ` set m then map_of m else (map_of m)(k \<mapsto> v))"
  by (simp add: map_insert_def map_of_insort_key)

lemma xsec_step_P4:
  "xsec_step y a m E i (xs, ia\<lparr>ProbeP4 := q\<rparr>) = xsec_step y a m E i (xs, ia)"
  by (simp add: xsec_step_def Let_def cong: sum.case_cong)

lemma xsec_step_frame:
  "xsec_step y a m E i (xs, ia) = Inr (xs', ia') \<Longrightarrow> \<exists>q. ia' = ia\<lparr>ProbeP4 := q\<rparr>"
proof -
  assume "xsec_step y a m E i (xs, ia) = Inr (xs', ia')"
  then obtain e where "ia' = ia\<lparr>ProbeP4 := probe_p4 y m e\<rparr>"
    by (auto simp: xsec_step_def Let_def split: sum.splits)
  then show ?thesis by blast
qed

lemma xsec_loop_frame:
  "for_loop k i (xsec_step y a m E) (xs, ia) = Inr (xs', ia') \<Longrightarrow> \<exists>q. ia' = ia\<lparr>ProbeP4 := q\<rparr>"
proof (induction k arbitrary: i xs ia)
  case 0
  then have "ia' = ia\<lparr>ProbeP4 := ProbeP4 ia\<rparr>" by simp
  then show ?case by blast
next
  case (Suc k)
  from Suc.prems obtain xs1 ia1 where
    s: "xsec_step y a m E i (xs, ia) = Inr (xs1, ia1)" and
    l: "for_loop k (i + 1) (xsec_step y a m E) (xs1, ia1) = Inr (xs', ia')"
    by (auto split: sum.splits)
  from xsec_step_frame [OF s] obtain q where "ia1 = ia\<lparr>ProbeP4 := q\<rparr>" by blast
  moreover from Suc.IH [OF l] obtain q' where "ia' = ia1\<lparr>ProbeP4 := q'\<rparr>" by blast
  ultimately have "ia' = ia\<lparr>ProbeP4 := q'\<rparr>" by simp
  then show ?case by blast
qed

lemma xsec_loop_P4:
  "for_loop (Suc k) i (xsec_step y a m E) (xs, ia\<lparr>ProbeP4 := q\<rparr>) =
   for_loop (Suc k) i (xsec_step y a m E) (xs, ia)"
  by (simp add: xsec_step_P4)

lemma xsec_loop_again:
  assumes "for_loop k i (xsec_step y a m E) (xs, ia) = Inr (xs', ia')"
  shows "for_loop k i (xsec_step y a m E) (xs, ia') = Inr (xs', ia')"
proof (cases k)
  case 0
  then show ?thesis using assms by simp
next
  case (Suc j)
  from xsec_loop_frame [OF assms] obtain q where "ia' = ia\<lparr>ProbeP4 := q\<rparr>" by blast
  then show ?thesis using assms Suc by (simp only: xsec_loop_P4)
qed

lemma build_spline_again:
  assumes "build_spline y st alg (Some ia) n lo hi = Inr (key, sp, ia1)"
  shows "build_spline y st alg (Some ia1) n lo hi = Inr (key, sp, ia1)"
proof -
  let ?e_min = "if dlt lo (Fin 0) then fEmin st else lo"
  let ?e_max = "if dlt hi (Fin 0) then fEmax st else hi"
  let ?nk = "if n \<le> 2 then fNKnots st else n"
  from assms obtain arr a E xsec where
    arr: "new_array (junk y) n = Inr arr" and
    alg: "alg = Some a" and
    ok: "dlt ?e_min ?e_max" and
    plan: "plan_knots y (fUseLogE st) (Threshold ia) ?nk ?e_min ?e_max arr = Inr E" and
    loop: "for_loop (nat ?nk) 0 (xsec_step y a (ProbeMass ia) E) (arr, ia) = Inr (xsec, ia1)" and
    spl: "Spline_new ?nk E xsec = Inr sp" and
    key: "key = BuildSplineKey alg (Some ia)"
    unfolding build_spline_def Let_def
    by (auto split: sum.splits option.splits if_splits)
  from xsec_loop_frame [OF loop] obtain q where q: "ia1 = ia\<lparr>ProbeP4 := q\<rparr>" by blast
  have same: "Threshold ia1 = Threshold ia" "ProbeMass ia1 = ProbeMass ia"
    "BuildSplineKey alg (Some ia1) = BuildSplineKey alg (Some ia)"
    using q by (simp_all add: BuildSplineKey_def split: option.splits)
  have loop1: "for_loop (nat ?nk) 0 (xsec_step y a (ProbeMass ia) E) (arr, ia1) = Inr (xsec, ia1)"
    by (rule xsec_loop_again [OF loop])
  show ?thesis
    unfolding build_spline_def Let_def
    using arr alg ok plan loop1 spl key same by simp
qed

lemma build_spline_map:
  "build_spline y (st\<lparr>fSplineMap := m\<rparr>) alg ia n lo hi = build_spline y st alg ia n lo hi"
  by (simp add: build_spline_def cong: sum.case_cong option.case_cong if_cong)

text \<open>
  C1 (as amended). \<^verbatim>\<open>CreateSpline\<close> hands the spline it built to \<^verbatim>\<open>std::map::insert\<close>,
  which stores it only when the key is absent: an entry already under the key is kept
  and the whole list is unchanged. When the key was absent the list gains that one key
  and maps it to the spline built. In both cases a second call with the same arguments
  (on the interaction as the first call left it) returns the list as the first call
  left it, so the number of keys does not change. The counterexample: an entry of 3
  knots is under the key; two calls that each build a spline of 4 knots leave the
  3 knots there.
\<close>

theorem CreateSpline_twice:
  assumes "CreateSpline y st alg (Some ia) n lo hi = Inr (st1, ia1)"
  shows "CreateSpline y st1 alg (Some ia1) n lo hi = Inr (st1, ia1)
     \<and> (SplineExists st (BuildSplineKey alg (Some ia)) \<longrightarrow> st1 = st)
     \<and> (\<not> SplineExists st (BuildSplineKey alg (Some ia)) \<longrightarrow>
          (\<exists>sp. build_spline y st alg (Some ia) n lo hi
                   = Inr (BuildSplineKey alg (Some ia), sp, ia1)
                \<and> GetSpline st1 (BuildSplineKey alg (Some ia)) = Some sp
                \<and> length (GetSplineKeys st1) = length (GetSplineKeys st) + 1))"
proof -
  let ?key = "BuildSplineKey alg (Some ia)"
  from assms obtain key sp where
    b: "build_spline y st alg (Some ia) n lo hi = Inr (key, sp, ia1)" and
    st1: "st1 = st\<lparr>fSplineMap := map_insert key sp (fSplineMap st)\<rparr>"
    by (auto simp: CreateSpline_def split: sum.splits)
  have key: "key = ?key"
    using b by (auto simp: build_spline_def Let_def split: sum.splits option.splits if_splits)
  have b1: "build_spline y st1 alg (Some ia1) n lo hi = Inr (key, sp, ia1)"
    unfolding st1 build_spline_map by (rule build_spline_again [OF b])
  have there: "key \<in> fst ` set (fSplineMap st1)"
    unfolding st1 by (simp add: set_map_insert)
  have again: "CreateSpline y st1 alg (Some ia1) n lo hi = Inr (st1, ia1)"
    using b1 there by (simp add: CreateSpline_def map_insert_present)
  have kept: "SplineExists st ?key \<longrightarrow> st1 = st"
    using key st1 by (simp add: SplineExists_def map_insert_present)
  have fresh: "\<not> SplineExists st ?key \<longrightarrow>
      GetSpline st1 ?key = Some sp \<and> length (GetSplineKeys st1) = length (GetSplineKeys st) + 1"
    using key st1 there
    by (simp add: SplineExists_def GetSpline_def GetSplineKeys_def map_of_map_insert)
       (simp add: map_insert_def)
  show ?thesis using again kept fresh b key by blast
qed

theorem CreateSpline_twice_witness:
  "CreateSpline ex_extern ex_store0 (Some ex_alg) (Some ex_interaction) 3 (Fin 1) (Fin 3)
     = Inr (ex_store1, ex_ia 3)
   \<and> CreateSpline ex_extern ex_store1 (Some ex_alg) (Some (ex_ia 3)) 3 (Fin 1) (Fin 3)
     = Inr (ex_store1, ex_ia 3)
   \<and> \<not> SplineExists ex_store0 (BuildSplineKey (Some ex_alg) (Some ex_interaction))
   \<and> length (GetSplineKeys ex_store1) = length (GetSplineKeys ex_store0) + 1"
proof -
  have h: "CreateSpline ex_extern ex_store0 (Some ex_alg) (Some ex_interaction) 3 (Fin 1) (Fin 3)
     = Inr (ex_store1, ex_ia 3)"
    by (simp add: run_defs ex_defs io_defs)
  have n: "\<not> SplineExists ex_store0 (BuildSplineKey (Some ex_alg) (Some ex_interaction))"
    by (simp add: SplineExists_def run_defs ex_defs io_defs)
  show ?thesis using h n CreateSpline_twice [OF h] by blast
qed

theorem CreateSpline_keeps_counterexample:
  "CreateSpline ex_extern ex_store0 (Some ex_alg) (Some ex_interaction) 3 (Fin 1) (Fin 3)
     = Inr (ex_store1, ex_ia 3)
   \<and> CreateSpline ex_extern ex_store1 (Some ex_alg) (Some (ex_ia 3)) 4 (Fin 1) (Fin 4)
     = Inr (ex_store1, ex_ia 4)
   \<and> build_spline ex_extern ex_store1 (Some ex_alg) (Some (ex_ia 4)) 4 (Fin 1) (Fin 4)
     = Inr (ex_key, ex_spline4, ex_ia 4)
   \<and> CreateSpline ex_extern ex_store1 (Some ex_alg) (Some (ex_ia 4)) 4 (Fin 1) (Fin 4)
     = Inr (ex_store1, ex_ia 4)
   \<and> GetSpline ex_store1 ex_key = Some ex_spline3
   \<and> ex_spline3 \<noteq> ex_spline4"
  by (simp add: run_defs ex_defs io_defs GetSpline_def SplineExists_def)

subsection \<open>The reader on a written document\<close>

lemmas node_defs =
  elem_start_def elem_end_def text_node_def white_space_def comment_node_def

lemmas step_defs =
  process_node_def and_then_def on_root_def on_spline_start_def on_E_start_def
  on_xsec_start_def on_text_def on_knot_end_def on_spline_end_def
  kNodeTypeStartElement_def kNodeTypeEndElement_def kKnotX_def kKnotY_def

lemma read_nodes_append:
  "read_nodes x p (a @ b) =
     (case read_nodes x p a of Next p' \<Rightarrow> read_nodes x p' b | Fault e \<Rightarrow> Fault e
      | Return s p' \<Rightarrow> Return s p')"
  by (induction a arbitrary: p) (auto split: outcome.splits)

lemma read_knot:
  assumes "p_E p = Alloc ea" and "p_xsec p = Alloc xa" and "0 \<le> p_iknot p"
    and "p_iknot p < int (length ea)" and "p_iknot p < int (length xa)"
  shows "read_nodes x p (knot_nodes x ''E'' ''xsec'' k @ rest) =
     read_nodes x
       (p\<lparr>p_val_type := kKnotY, p_iknot := p_iknot p + 1,
          p_E := Alloc (ea[nat (p_iknot p) := atof x (print_x x (fst k))]),
          p_xsec := Alloc (xa[nat (p_iknot p) := atof x (print_y x (snd k))])\<rparr>) rest"
proof -
  have "read_nodes x p (knot_nodes x ''E'' ''xsec'' k @ rest) =
     read_nodes x
       (p\<lparr>p_E := Alloc (ea[nat (p_iknot p) := atof x (print_x x (fst k))]),
          p_val_type := 1,
          p_xsec := Alloc (xa[nat (p_iknot p) := atof x (print_y x (snd k))]),
          p_iknot := p_iknot p + 1\<rparr>) rest"
    using assms
    by (simp add: knot_nodes_def node_defs step_defs ptr_write_def arr_write_def)
  also have "p\<lparr>p_E := Alloc (ea[nat (p_iknot p) := atof x (print_x x (fst k))]),
          p_val_type := 1,
          p_xsec := Alloc (xa[nat (p_iknot p) := atof x (print_y x (snd k))]),
          p_iknot := p_iknot p + 1\<rparr> =
       p\<lparr>p_val_type := kKnotY, p_iknot := p_iknot p + 1,
          p_E := Alloc (ea[nat (p_iknot p) := atof x (print_x x (fst k))]),
          p_xsec := Alloc (xa[nat (p_iknot p) := atof x (print_y x (snd k))])\<rparr>"
    by (simp add: kKnotY_def)
  finally show ?thesis .
qed

lemma read_knots:
  assumes "knots_read x p ks0" and "length ks0 + length ks \<le> nat (p_nknots p)"
  shows "\<exists>p'. read_nodes x p (concat (map (knot_nodes x ''E'' ''xsec'') ks) @ rest)
               = read_nodes x p' rest
           \<and> knots_read x p' (ks0 @ ks) \<and> p_list p' = p_list p
           \<and> p_spline_name p' = p_spline_name p \<and> p_nknots p' = p_nknots p"
  using assms
proof (induction ks arbitrary: p ks0)
  case Nil
  then show ?case by auto
next
  case (Cons k ks)
  from Cons.prems(1) obtain ea xa where
    e: "p_E p = Alloc ea" "p_xsec p = Alloc xa" and
    n: "0 \<le> p_nknots p" "length ea = nat (p_nknots p)" "length xa = nat (p_nknots p)" and
    i: "p_iknot p = int (length ks0)" and
    t: "take (length ks0) ea = map (\<lambda>k. atof x (print_x x (fst k))) ks0"
       "take (length ks0) xa = map (\<lambda>k. atof x (print_y x (snd k))) ks0"
    unfolding knots_read_def by blast
  let ?j = "length ks0"
  let ?p1 = "p\<lparr>p_val_type := kKnotY, p_iknot := p_iknot p + 1,
          p_E := Alloc (ea[nat (p_iknot p) := atof x (print_x x (fst k))]),
          p_xsec := Alloc (xa[nat (p_iknot p) := atof x (print_y x (snd k))])\<rparr>"
  have lt: "?j < length ea" "?j < length xa" using Cons.prems(2) n by simp_all
  have r1: "read_nodes x p (knot_nodes x ''E'' ''xsec'' k @ concat (map (knot_nodes x ''E'' ''xsec'') ks) @ rest)
          = read_nodes x ?p1 (concat (map (knot_nodes x ''E'' ''xsec'') ks) @ rest)"
    using e i lt by (intro read_knot) simp_all
  have k1: "knots_read x ?p1 (ks0 @ [k])"
    unfolding knots_read_def using e n i t lt
    by (simp add: take_Suc_conv_app_nth)
  have "length (ks0 @ [k]) + length ks \<le> nat (p_nknots ?p1)"
    using Cons.prems(2) by simp
  from Cons.IH [OF k1 this] obtain p' where
    "read_nodes x ?p1 (concat (map (knot_nodes x ''E'' ''xsec'') ks) @ rest) = read_nodes x p' rest"
    "knots_read x p' ((ks0 @ [k]) @ ks)" "p_list p' = p_list ?p1"
    "p_spline_name p' = p_spline_name ?p1" "p_nknots p' = p_nknots ?p1"
    by blast
  then show ?case using r1 by (intro exI [of _ p']) simp
qed

lemma step_white_space: "d \<noteq> 4 \<Longrightarrow> process_node x p (white_space d) = Next p"
  by (simp add: node_defs step_defs)

lemma step_spline_start:
  assumes "0 \<le> atoi x (TrimSpaces x s)"
  shows "process_node x p (elem_start ''spline'' 1 [(''name'', key), (''nknots'', s)]) =
     Next (p\<lparr>p_spline_name := TrimSpaces x key, p_nknots := atoi x (TrimSpaces x s),
             p_iknot := 0,
             p_E := Alloc (map (junk x) [0..<nat (atoi x (TrimSpaces x s))]),
             p_xsec := Alloc (map (junk x) [0..<nat (atoi x (TrimSpaces x s))])\<rparr>)"
  using assms by (simp add: node_defs step_defs new_array_def Let_def)

lemma step_spline_end:
  assumes "p_E p = Alloc ea" and "p_xsec p = Alloc xa"
    and "Spline_new (p_nknots p) ea xa = Inr sp"
  shows "process_node x p (elem_end ''spline'' 1) =
     Next (p\<lparr>p_E := Freed, p_xsec := Freed,
             p_list := (p_list p)
               \<lparr>fSplineMap := map_insert (p_spline_name p) sp (fSplineMap (p_list p)),
                fInitSet := insert (p_spline_name p) (fInitSet (p_list p))\<rparr>\<rparr>)"
  using assms by (simp add: node_defs step_defs ptr_cells_def ptr_delete_def)

lemma zip_reread:
  "zip (map (\<lambda>k. atof x (print_x x (fst k))) sp) (map (\<lambda>k. atof x (print_y x (snd k))) sp)
     = reread x sp"
  by (induction sp) (simp_all add: reread_def)

lemma read_spline:
  assumes "TrimSpaces x key = key"
    and "atoi x (TrimSpaces x (print_int x (int (length sp)))) = int (length sp)"
  shows "\<exists>p'. read_nodes x p (Spline_SaveAsXml x sp ''E'' ''xsec'' key @ rest)
               = read_nodes x p' rest
           \<and> p_list p' = (p_list p)
               \<lparr>fSplineMap := map_insert key (reread x sp) (fSplineMap (p_list p)),
                fInitSet := insert key (fInitSet (p_list p))\<rparr>"
proof -
  let ?n = "int (length sp)"
  let ?a = "map (junk x) [0..<length sp]"
  let ?p1 = "p\<lparr>p_spline_name := key, p_nknots := ?n, p_iknot := 0,
               p_E := Alloc ?a, p_xsec := Alloc ?a\<rparr>"
  let ?tail = "elem_end ''spline'' 1 # white_space 1 # rest"
  have s1: "process_node x p
      (elem_start ''spline'' 1 [(''name'', key), (''nknots'', print_int x ?n)]) = Next ?p1"
    using step_spline_start [of x "print_int x ?n" p key] assms by simp
  have k0: "knots_read x ?p1 []" by (simp add: knots_read_def)
  have "length ([]::Spline) + length sp \<le> nat (p_nknots ?p1)" by simp
  from read_knots [OF k0 this, of ?tail] obtain p2 where
    r2: "read_nodes x ?p1 (concat (map (knot_nodes x ''E'' ''xsec'') sp) @ ?tail)
           = read_nodes x p2 ?tail" and
    k2: "knots_read x p2 sp" and
    f2: "p_list p2 = p_list p" "p_spline_name p2 = key" "p_nknots p2 = ?n"
    by auto
  from k2 f2 obtain ea xa where
    e: "p_E p2 = Alloc ea" "p_xsec p2 = Alloc xa" and
    l: "length ea = length sp" "length xa = length sp" and
    t: "ea = map (\<lambda>k. atof x (print_x x (fst k))) sp"
       "xa = map (\<lambda>k. atof x (print_y x (snd k))) sp"
    unfolding knots_read_def by auto
  have sn: "Spline_new (p_nknots p2) ea xa = Inr (reread x sp)"
    using f2 l by (simp add: Spline_new_def t zip_reread)
  let ?p3 = "p2\<lparr>p_E := Freed, p_xsec := Freed,
             p_list := (p_list p2)
               \<lparr>fSplineMap := map_insert (p_spline_name p2) (reread x sp) (fSplineMap (p_list p2)),
                fInitSet := insert (p_spline_name p2) (fInitSet (p_list p2))\<rparr>\<rparr>"
  have s3: "process_node x p2 (elem_end ''spline'' 1) = Next ?p3"
    by (rule step_spline_end [OF e sn])
  have "read_nodes x p (Spline_SaveAsXml x sp ''E'' ''xsec'' key @ rest) = read_nodes x ?p3 rest"
    unfolding Spline_SaveAsXml_def
    using s1 r2 s3 by (simp add: step_white_space)
  moreover have "p_list ?p3 = (p_list p)
               \<lparr>fSplineMap := map_insert key (reread x sp) (fSplineMap (p_list p)),
                fInitSet := insert key (fInitSet (p_list p))\<rparr>"
    using f2 by simp
  ultimately show ?thesis by blast
qed

lemma save_splines_saved:
  "save_splines x init si m =
     concat (map (\<lambda>e. Spline_SaveAsXml x (snd e) ''E'' ''xsec'' (fst e)) (saved init si m))"
  by (induction m) (auto simp: saved_def)

lemma read_blocks:
  assumes "text_ok x es"
  shows "\<exists>p'. read_nodes x p
                 (concat (map (\<lambda>e. Spline_SaveAsXml x (snd e) ''E'' ''xsec'' (fst e)) es) @ rest)
               = read_nodes x p' rest
           \<and> p_list p' = (p_list p)
               \<lparr>fSplineMap :=
                  insert_all (map (\<lambda>e. (fst e, reread x (snd e))) es) (fSplineMap (p_list p)),
                fInitSet := fInitSet (p_list p) \<union> fst ` set es\<rparr>"
  using assms
proof (induction es arbitrary: p)
  case Nil
  then show ?case by (intro exI [of _ p]) simp
next
  case (Cons e es)
  let ?blocks = "concat (map (\<lambda>e. Spline_SaveAsXml x (snd e) ''E'' ''xsec'' (fst e)) es)"
  have ok: "TrimSpaces x (fst e) = fst e"
    "atoi x (TrimSpaces x (print_int x (int (length (snd e))))) = int (length (snd e))"
    "text_ok x es"
    using Cons.prems by (simp_all add: text_ok_def)
  from read_spline [OF ok(1) ok(2), of p "?blocks @ rest"] obtain p1 where
    r1: "read_nodes x p (Spline_SaveAsXml x (snd e) ''E'' ''xsec'' (fst e) @ ?blocks @ rest)
           = read_nodes x p1 (?blocks @ rest)" and
    l1: "p_list p1 = (p_list p)
               \<lparr>fSplineMap := map_insert (fst e) (reread x (snd e)) (fSplineMap (p_list p)),
                fInitSet := insert (fst e) (fInitSet (p_list p))\<rparr>"
    by blast
  from Cons.IH [OF ok(3), of p1] obtain p' where
    r2: "read_nodes x p1 (?blocks @ rest) = read_nodes x p' rest" and
    l2: "p_list p' = (p_list p1)
               \<lparr>fSplineMap :=
                  insert_all (map (\<lambda>e. (fst e, reread x (snd e))) es) (fSplineMap (p_list p1)),
                fInitSet := fInitSet (p_list p1) \<union> fst ` set es\<rparr>"
    by blast
  show ?case
    using r1 r2 l1 l2 by (intro exI [of _ p']) simp
qed

lemma step_comment: "process_node x p (comment_node v 0) = Next p"
  by (simp add: node_defs step_defs)

lemma step_root_start:
  "process_node x p
     (elem_start ''genie_xsec_spline_list'' 0 [(''version'', v), (''uselog'', s)]) =
     Next (p\<lparr>p_list := (p_list p)\<lparr>fUseLogE := (atoi x (TrimSpaces x s) = 1)\<rparr>\<rparr>)"
  by (simp add: node_defs step_defs SetLogE_def)

lemma step_root_end: "process_node x p (elem_end ''genie_xsec_spline_list'' 0) = Next p"
  by (simp add: node_defs step_defs)

text \<open>What reading a written document does to the list.\<close>

lemma read_document:
  assumes "text_ok x (saved (fInitSet st) si (fSplineMap st))"
  shows "\<exists>p'. read_nodes x (pstate_init st1) (document x st si) = Next p'
           \<and> p_list p' = st1
               \<lparr>fUseLogE :=
                  (atoi x (TrimSpaces x (print_int x (if fUseLogE st then 1 else 0))) = 1),
                fSplineMap :=
                  insert_all (map (\<lambda>e. (fst e, reread x (snd e)))
                                (saved (fInitSet st) si (fSplineMap st))) (fSplineMap st1),
                fInitSet := fInitSet st1 \<union> fst ` set (saved (fInitSet st) si (fSplineMap st))\<rparr>"
proof -
  let ?es = "saved (fInitSet st) si (fSplineMap st)"
  let ?p0 = "(pstate_init st1)\<lparr>p_list := (p_list (pstate_init st1))
       \<lparr>fUseLogE := (atoi x (TrimSpaces x (print_int x (if fUseLogE st then 1 else 0))) = 1)\<rparr>\<rparr>"
  from read_blocks [OF assms, of ?p0 "[elem_end ''genie_xsec_spline_list'' 0]"] obtain p' where
    r: "read_nodes x ?p0
          (concat (map (\<lambda>e. Spline_SaveAsXml x (snd e) ''E'' ''xsec'' (fst e)) ?es)
             @ [elem_end ''genie_xsec_spline_list'' 0])
        = read_nodes x p' [elem_end ''genie_xsec_spline_list'' 0]" and
    l: "p_list p' = (p_list ?p0)
               \<lparr>fSplineMap :=
                  insert_all (map (\<lambda>e. (fst e, reread x (snd e))) ?es) (fSplineMap (p_list ?p0)),
                fInitSet := fInitSet (p_list ?p0) \<union> fst ` set ?es\<rparr>"
    by blast
  have "read_nodes x (pstate_init st1) (document x st si) = Next p'"
    unfolding document_def save_splines_saved
    using r by (simp add: step_comment step_root_start step_white_space step_root_end)
  moreover have "p_list p' = st1
               \<lparr>fUseLogE :=
                  (atoi x (TrimSpaces x (print_int x (if fUseLogE st then 1 else 0))) = 1),
                fSplineMap := insert_all (map (\<lambda>e. (fst e, reread x (snd e))) ?es) (fSplineMap st1),
                fInitSet := fInitSet st1 \<union> fst ` set ?es\<rparr>"
    using l by (simp add: pstate_init_def)
  ultimately show ?thesis by blast
qed

lemma load_saved:
  assumes "creatable fs path" and "text_ok x (saved (fInitSet st) si (fSplineMap st))"
  shows "LoadFromXml x (SaveAsXml x fs st path si) st0 path keep =
     Inr (kXmlOK,
          (if keep then st0 else st0\<lparr>fSplineMap := []\<rparr>)
            \<lparr>fUseLogE :=
               (atoi x (TrimSpaces x (print_int x (if fUseLogE st then 1 else 0))) = 1),
             fSplineMap :=
               insert_all (map (\<lambda>e. (fst e, reread x (snd e)))
                             (saved (fInitSet st) si (fSplineMap st)))
                 (if keep then fSplineMap st0 else []),
             fInitSet := fInitSet st0 \<union> fst ` set (saved (fInitSet st) si (fSplineMap st))\<rparr>)"
proof -
  let ?st1 = "if \<not> keep then st0\<lparr>fSplineMap := []\<rparr> else st0"
  from read_document [OF assms(2), of ?st1] obtain p' where
    "read_nodes x (pstate_init ?st1) (document x st si) = Next p'" and
    "p_list p' = ?st1
               \<lparr>fUseLogE :=
                  (atoi x (TrimSpaces x (print_int x (if fUseLogE st then 1 else 0))) = 1),
                fSplineMap :=
                  insert_all (map (\<lambda>e. (fst e, reread x (snd e)))
                                (saved (fInitSet st) si (fSplineMap st))) (fSplineMap ?st1),
                fInitSet := fInitSet ?st1 \<union> fst ` set (saved (fInitSet st) si (fSplineMap st))\<rparr>"
    by blast
  then show ?thesis
    using assms(1) by (cases keep) (simp_all add: LoadFromXml_def SaveAsXml_def)
qed

lemma keys_insert_all: "fst ` set (insert_all es m) = fst ` set m \<union> fst ` set es"
  by (induction es arbitrary: m) (auto simp: set_map_insert)

lemma map_of_insert_all: "map_of (insert_all es m) = map_of (m @ es)"
proof (induction es arbitrary: m)
  case Nil
  then show ?case by simp
next
  case (Cons e es)
  have "map_of (map_insert (fst e) (snd e) m) k = map_of (m @ [e]) k" for k
    using map_of_eq_None_iff [of m "fst e"]
    by (cases e; cases "map_of m k") (auto simp: map_of_map_insert map_add_def)
  then have "map_of (map_insert (fst e) (snd e) m) = map_of (m @ [e])"
    by (rule ext)
  then have "map_of (map_insert (fst e) (snd e) m @ es) = map_of ((m @ [e]) @ es)"
    by (simp only: map_of_append)
  then show ?case using Cons.IH [of "map_insert (fst e) (snd e) m"] by simp
qed



subsection \<open>Saving and loading\<close>











lemma ex_reread3: "reread ex_extern ex_spline3 = ex_spline3"
  by (simp add: reread_def io_defs ex_defs)

lemma ex_text_ok3: "text_ok ex_extern [(k, ex_spline3)]"
  by (simp add: text_ok_def io_defs ex_defs)



lemma CreateSpline_result:
  assumes "CreateSpline y st alg (Some ia) n lo hi = Inr (st1, ia1)"
  shows "\<exists>sp. st1 = st\<lparr>fSplineMap :=
                         map_insert (BuildSplineKey alg (Some ia)) sp (fSplineMap st)\<rparr>"
proof -
  from assms obtain key sp where
    b: "build_spline y st alg (Some ia) n lo hi = Inr (key, sp, ia1)" and
    st1: "st1 = st\<lparr>fSplineMap := map_insert key sp (fSplineMap st)\<rparr>"
    by (auto simp: CreateSpline_def split: sum.splits)
  have "key = BuildSplineKey alg (Some ia)"
    using b by (auto simp: build_spline_def Let_def split: sum.splits option.splits if_splits)
  then show ?thesis using st1 by blast
qed

lemma saved_insort:
  "\<forall>e \<in> set m. fst e \<in> init \<Longrightarrow> k \<notin> init \<Longrightarrow>
   saved init False (insort_key fst (k, v) m) = [(k, v)]"
  by (induction m) (auto simp: saved_def)

lemma text_ok_subset: "text_ok x m \<Longrightarrow> set es \<subseteq> set m \<Longrightarrow> text_ok x es"
  by (auto simp: text_ok_def)

lemma saved_created:
  assumes "fst ` set (fSplineMap st) \<subseteq> fInitSet st"
    and st1: "st1 = st\<lparr>fSplineMap := map_insert key sp (fSplineMap st)\<rparr>"
    and "key \<notin> fInitSet st"
  shows "saved (fInitSet st1) False (fSplineMap st1) = [(key, sp)]"
proof -
  have new: "key \<notin> fst ` set (fSplineMap st)" using assms(1,3) by blast
  have m1: "fSplineMap st1 = insort_key fst (key, sp) (fSplineMap st)"
    using st1 new by (simp add: map_insert_def)
  have i: "fInitSet st1 = fInitSet st" using st1 by simp
  have "\<forall>e \<in> set (fSplineMap st). fst e \<in> fInitSet st" using assms(1) by auto
  then show ?thesis
    unfolding m1 i using assms(3) by (rule saved_insort)
qed

lemma load_single:
  assumes sv: "saved (fInitSet st) si (fSplineMap st) = [(key, sp)]"
    and "creatable fs path" and ok: "text_ok x [(key, sp)]"
  shows "LoadFromXml x (SaveAsXml x fs st path si) st0 path False =
     Inr (kXmlOK, (st0\<lparr>fSplineMap := []\<rparr>)
            \<lparr>fUseLogE :=
               (atoi x (TrimSpaces x (print_int x (if fUseLogE st then 1 else 0))) = 1),
             fSplineMap := [(key, reread x sp)],
             fInitSet := fInitSet st0 \<union> {key}\<rparr>)"
proof -
  have ok': "text_ok x (saved (fInitSet st) si (fSplineMap st))"
    unfolding sv by (rule ok)
  have "insert_all (map (\<lambda>e. (fst e, reread x (snd e))) [(key, sp)]) [] = [(key, reread x sp)]"
    by (simp add: map_insert_def)
  then show ?thesis
    unfolding load_saved [OF assms(2) ok', of st0 False] sv by simp
qed

text \<open>
  C6 (as amended). Every key of the list is in the initial set; \<^verbatim>\<open>CreateSpline\<close> adds a
  key that is not in the initial set. Saving without the initially loaded splines and
  loading that file without \<open>keep\<close> gives a list whose only key is the new one. The
  counterexample: the key was loaded once, a later load without \<open>keep\<close> cleared it from
  the map but not from the initial set, and \<^verbatim>\<open>CreateSpline\<close> brings it back; it is new
  to the map, yet the save skips it and the load gives an empty list.
\<close>

theorem selective_save:
  assumes "fst ` set (fSplineMap st) \<subseteq> fInitSet st"
    and "CreateSpline y st alg (Some ia) n lo hi = Inr (st1, ia1)"
    and "BuildSplineKey alg (Some ia) \<notin> fInitSet st"
    and "creatable fs path" and "text_ok x (fSplineMap st1)"
  shows "\<exists>st2. LoadFromXml x (SaveAsXml x fs st1 path False) st1 path False
                 = Inr (kXmlOK, st2)
           \<and> GetSplineKeys st2 = [BuildSplineKey alg (Some ia)]"
proof -
  let ?key = "BuildSplineKey alg (Some ia)"
  from CreateSpline_result [OF assms(2)] obtain sp where
    st1: "st1 = st\<lparr>fSplineMap := map_insert ?key sp (fSplineMap st)\<rparr>" by blast
  have sv: "saved (fInitSet st1) False (fSplineMap st1) = [(?key, sp)]"
    by (rule saved_created [OF assms(1) st1 assms(3)])
  have "set [(?key, sp)] \<subseteq> set (fSplineMap st1)"
    using sv [symmetric] by (simp only: saved_def set_filter) blast
  then have ok: "text_ok x [(?key, sp)]"
    by (rule text_ok_subset [OF assms(5)])
  let ?st2 = "(st1\<lparr>fSplineMap := []\<rparr>)
            \<lparr>fUseLogE :=
               (atoi x (TrimSpaces x (print_int x (if fUseLogE st1 then 1 else 0))) = 1),
             fSplineMap := [(?key, reread x sp)],
             fInitSet := fInitSet st1 \<union> {?key}\<rparr>"
  have "LoadFromXml x (SaveAsXml x fs st1 path False) st1 path False = Inr (kXmlOK, ?st2)"
    by (rule load_single [OF sv assms(4) ok])
  moreover have "GetSplineKeys ?st2 = [?key]" by (simp add: GetSplineKeys_def)
  ultimately show ?thesis by blast
qed

theorem selective_save_witness:
  "fst ` set (fSplineMap ex_storeA) \<subseteq> fInitSet ex_storeA
   \<and> CreateSpline ex_extern ex_storeA (Some ex_alg) (Some ex_interaction2) 3 (Fin 1) (Fin 3)
       = Inr (ex_storeE, ex_interaction2\<lparr>ProbeP4 := (Fin 0, Fin 0, Fin 3, Fin 3)\<rparr>)
   \<and> BuildSplineKey (Some ex_alg) (Some ex_interaction2) \<notin> fInitSet ex_storeA
   \<and> creatable ex_fs ''new.xml'' \<and> text_ok ex_extern (fSplineMap ex_storeE)
   \<and> (\<exists>st2. LoadFromXml ex_extern (SaveAsXml ex_extern ex_fs ex_storeE ''new.xml'' False)
                  ex_storeE ''new.xml'' False = Inr (kXmlOK, st2)
           \<and> GetSplineKeys st2 = [BuildSplineKey (Some ex_alg) (Some ex_interaction2)])"
proof -
  have a: "fst ` set (fSplineMap ex_storeA) \<subseteq> fInitSet ex_storeA"
    by (simp add: ex_storeA_def)
  have b: "CreateSpline ex_extern ex_storeA (Some ex_alg) (Some ex_interaction2) 3 (Fin 1) (Fin 3)
       = Inr (ex_storeE, ex_interaction2\<lparr>ProbeP4 := (Fin 0, Fin 0, Fin 3, Fin 3)\<rparr>)"
    by (simp add: run_defs ex_defs ex2_defs io_defs)
  have c: "BuildSplineKey (Some ex_alg) (Some ex_interaction2) \<notin> fInitSet ex_storeA"
    by (simp add: BuildSplineKey_def ex_defs ex2_defs)
  have d: "creatable ex_fs ''new.xml''" by (simp add: io_defs)
  have e: "text_ok ex_extern (fSplineMap ex_storeE)"
    by (simp add: text_ok_def io_defs ex_defs ex2_defs)
  show ?thesis
    using a b c d e selective_save [OF a b c d e] by blast
qed

lemma LoadFromXml_readable:
  "readable fs f = readable fs' f \<Longrightarrow> LoadFromXml x fs st f keep = LoadFromXml x fs' st f keep"
  by (simp add: LoadFromXml_def)

lemma ex_flag: "(atoi ex_extern (TrimSpaces ex_extern (print_int ex_extern 0)) = 1) = False"
  by (simp add: io_defs)

lemma ex_loadA:
  "LoadFromXml ex_extern ex_files ex_store0 ''A.xml'' False = Inr (kXmlOK, ex_storeA)"
proof -
  have r: "readable ex_files ''A.xml''
         = readable (SaveAsXml ex_extern ex_fs ex_store1 ''A.xml'' True) ''A.xml''"
    by (simp add: ex_files_def SaveAsXml_def io_defs)
  have c: "creatable ex_fs ''A.xml''" by (simp add: io_defs)
  have s: "saved (fInitSet ex_store1) True (fSplineMap ex_store1) = [(ex_key, ex_spline3)]"
    by (simp add: saved_def ex_store1_def)
  have f: "fUseLogE ex_store1 = False"
    by (simp add: ex_store1_def ex_store0_def SetLogE_def)
  have i: "fInitSet ex_store0 = {}"
    by (simp add: ex_store0_def SetLogE_def XSecSplineList_new_def)
  show ?thesis
    unfolding LoadFromXml_readable [OF r] load_single [OF s c ex_text_ok3]
    by (simp add: ex_reread3 ex_flag f i ex_storeA_def ex_store0_def SetLogE_def
          XSecSplineList_new_def)
qed

lemma ex_loadB:
  "LoadFromXml ex_extern ex_files ex_storeA ''B.xml'' False = Inr (kXmlOK, ex_storeB)"
proof -
  have c: "creatable (SaveAsXml ex_extern ex_fs ex_store1 ''A.xml'' True) ''B.xml''"
    by (simp add: SaveAsXml_def io_defs)
  have s: "saved (fInitSet ex_store2) True (fSplineMap ex_store2) = [(ex_key2, ex_spline3)]"
    by (simp add: saved_def ex_store2_def)
  have f: "fUseLogE ex_store2 = False"
    by (simp add: ex_store2_def ex_store0_def SetLogE_def)
  show ?thesis
    unfolding ex_files_def load_single [OF s c ex_text_ok3]
    by (simp add: ex_reread3 ex_flag f ex_storeA_def ex_storeB_def ex_store0_def SetLogE_def
          XSecSplineList_new_def insert_commute)
qed

lemma ex_loadC:
  "LoadFromXml ex_extern (SaveAsXml ex_extern ex_files ex_storeC ''C.xml'' False)
     ex_storeC ''C.xml'' False = Inr (kXmlOK, ex_storeD)"
proof -
  have c: "creatable ex_files ''C.xml''"
    by (simp add: ex_files_def SaveAsXml_def io_defs)
  have s: "saved (fInitSet ex_storeC) False (fSplineMap ex_storeC) = []"
    by (simp add: saved_def ex_storeC_def)
  have t: "text_ok ex_extern (saved (fInitSet ex_storeC) False (fSplineMap ex_storeC))"
    unfolding s by (simp add: text_ok_def)
  have f: "fUseLogE ex_storeC = False"
    by (simp add: ex_storeC_def ex_store0_def SetLogE_def)
  show ?thesis
    unfolding load_saved [OF c t, of ex_storeC False] s
    by (simp add: ex_flag f ex_storeC_def ex_storeD_def ex_store0_def SetLogE_def
          XSecSplineList_new_def)
qed

theorem selective_save_counterexample:
  "LoadFromXml ex_extern ex_files ex_store0 ''A.xml'' False = Inr (kXmlOK, ex_storeA)
   \<and> LoadFromXml ex_extern ex_files ex_storeA ''B.xml'' False = Inr (kXmlOK, ex_storeB)
   \<and> fst ` set (fSplineMap ex_storeB) \<subseteq> fInitSet ex_storeB
   \<and> \<not> SplineExists ex_storeB (BuildSplineKey (Some ex_alg) (Some ex_interaction))
   \<and> CreateSpline ex_extern ex_storeB (Some ex_alg) (Some ex_interaction) 3 (Fin 1) (Fin 3)
       = Inr (ex_storeC, ex_ia 3)
   \<and> GetSplineKeys ex_storeC = [BuildSplineKey (Some ex_alg) (Some ex_interaction), ex_key2]
   \<and> LoadFromXml ex_extern (SaveAsXml ex_extern ex_files ex_storeC ''C.xml'' False)
         ex_storeC ''C.xml'' False = Inr (kXmlOK, ex_storeD)
   \<and> GetSplineKeys ex_storeD = []"
proof -
  have "fst ` set (fSplineMap ex_storeB) \<subseteq> fInitSet ex_storeB"
    by (simp add: ex_storeB_def)
  moreover have "\<not> SplineExists ex_storeB (BuildSplineKey (Some ex_alg) (Some ex_interaction))"
    by (simp add: SplineExists_def BuildSplineKey_def ex_defs ex2_defs)
  moreover have "CreateSpline ex_extern ex_storeB (Some ex_alg) (Some ex_interaction) 3 (Fin 1) (Fin 3)
       = Inr (ex_storeC, ex_ia 3)"
    by (simp add: run_defs ex_defs ex2_defs io_defs)
  moreover have "GetSplineKeys ex_storeC = [BuildSplineKey (Some ex_alg) (Some ex_interaction), ex_key2]"
    by (simp add: GetSplineKeys_def BuildSplineKey_def ex_defs ex2_defs)
  moreover have "GetSplineKeys ex_storeD = []"
    by (simp add: GetSplineKeys_def ex_storeD_def)
  ultimately show ?thesis
    using ex_loadA ex_loadB ex_loadC by blast
qed

subsection \<open>What a load changes\<close>

lemma and_then_Next:
  "and_then r f = Next p' \<Longrightarrow> \<exists>q. r = Next q \<and> f q = Next p'"
  by (cases r) (simp_all add: and_then_def)

lemma and_then_Return:
  "and_then r f = Return s p' \<Longrightarrow> r = Return s p' \<or> (\<exists>q. r = Next q \<and> f q = Return s p')"
  by (cases r) (simp_all add: and_then_def)

lemma on_root_Next:
  "on_root x n p = Next q \<Longrightarrow>
     p_list q = p_list p \<and> \<not> root_start n
     \<or> root_start n \<and> (\<exists>v. map_of (node_attrs n) ''uselog'' = Some v
           \<and> p_list q = (p_list p)\<lparr>fUseLogE := (atoi x (TrimSpaces x v) = 1)\<rparr>)"
  by (auto simp: on_root_def root_start_def SetLogE_def split: if_splits option.splits)

lemma on_root_Return:
  "on_root x n p = Return s q \<Longrightarrow> s = kXmlInvalidRoot \<and> q = p"
  by (auto simp: on_root_def split: if_splits option.splits)

lemma on_spline_start_Next: "on_spline_start x n p = Next q \<Longrightarrow> p_list q = p_list p"
  by (auto simp: on_spline_start_def Let_def split: if_splits option.splits sum.splits)

lemma on_E_start_Next: "on_E_start n p = Next q \<Longrightarrow> p_list q = p_list p"
  by (auto simp: on_E_start_def split: if_splits)

lemma on_xsec_start_Next: "on_xsec_start n p = Next q \<Longrightarrow> p_list q = p_list p"
  by (auto simp: on_xsec_start_def split: if_splits)

lemma on_text_Next: "on_text x n p = Next q \<Longrightarrow> p_list q = p_list p"
  by (auto simp: on_text_def split: if_splits sum.splits)

lemma on_knot_end_Next: "on_knot_end n p = Next q \<Longrightarrow> p_list q = p_list p"
  by (auto simp: on_knot_end_def split: if_splits)

lemma on_spline_end_Next:
  "on_spline_end n p = Next q \<Longrightarrow>
     fUseLogE (p_list q) = fUseLogE (p_list p) \<and> fInitSet (p_list p) \<subseteq> fInitSet (p_list q)"
  by (auto simp: on_spline_end_def split: if_splits sum.splits)

lemma no_other_Return:
  "on_spline_start x n p \<noteq> Return s q" "on_E_start n p \<noteq> Return s q"
  "on_xsec_start n p \<noteq> Return s q" "on_text x n p \<noteq> Return s q"
  "on_knot_end n p \<noteq> Return s q" "on_spline_end n p \<noteq> Return s q"
  by (auto simp: on_spline_start_def on_E_start_def on_xsec_start_def on_text_def
        on_knot_end_def on_spline_end_def Let_def split: if_splits option.splits sum.splits)

lemma process_node_Return:
  assumes "process_node x p n = Return s q"
  shows "on_root x n p = Return s q"
  using assms unfolding process_node_def
  by (auto dest!: and_then_Return simp: no_other_Return)

lemma process_node_Next:
  assumes "process_node x p n = Next p'"
  shows "\<exists>q1 q6. on_root x n p = Next q1 \<and> p_list q6 = p_list q1 \<and> on_spline_end n q6 = Next p'"
proof -
  from assms obtain q1 q2 q3 q4 q5 q6 where
    "on_root x n p = Next q1" "on_spline_start x n q1 = Next q2" "on_E_start n q2 = Next q3"
    "on_xsec_start n q3 = Next q4" "on_text x n q4 = Next q5" "on_knot_end n q5 = Next q6"
    "on_spline_end n q6 = Next p'"
    unfolding process_node_def by (blast dest: and_then_Next)
  then show ?thesis
    using on_spline_start_Next on_E_start_Next on_xsec_start_Next on_text_Next on_knot_end_Next
    by (intro exI [of _ q1] exI [of _ q6]) simp
qed

lemma step_init_set:
  assumes "process_node x p n = Next p'"
  shows "fInitSet (p_list p) \<subseteq> fInitSet (p_list p')"
proof -
  from process_node_Next [OF assms] obtain q1 q6 where
    a: "on_root x n p = Next q1" and b: "p_list q6 = p_list q1" and
    c: "on_spline_end n q6 = Next p'" by blast
  have "fInitSet (p_list q1) = fInitSet (p_list p)"
    using on_root_Next [OF a] by auto
  then show ?thesis using on_spline_end_Next [OF c] b by simp
qed

lemma step_uselog:
  assumes "process_node x p n = Next p'" and "\<not> root_start n"
  shows "fUseLogE (p_list p') = fUseLogE (p_list p)"
proof -
  from process_node_Next [OF assms(1)] obtain q1 q6 where
    a: "on_root x n p = Next q1" and b: "p_list q6 = p_list q1" and
    c: "on_spline_end n q6 = Next p'" by blast
  have "p_list q1 = p_list p" using on_root_Next [OF a] assms(2) by auto
  then show ?thesis using on_spline_end_Next [OF c] b by simp
qed

lemma step_root_uselog:
  assumes "process_node x p n = Next p'" and "root_start n"
  shows "\<exists>v. map_of (node_attrs n) ''uselog'' = Some v
           \<and> fUseLogE (p_list p') = (atoi x (TrimSpaces x v) = 1)"
proof -
  from process_node_Next [OF assms(1)] obtain q1 q6 where
    a: "on_root x n p = Next q1" and b: "p_list q6 = p_list q1" and
    c: "on_spline_end n q6 = Next p'" by blast
  from on_root_Next [OF a] assms(2) obtain v where
    v: "map_of (node_attrs n) ''uselog'' = Some v"
       "p_list q1 = (p_list p)\<lparr>fUseLogE := (atoi x (TrimSpaces x v) = 1)\<rparr>" by auto
  have "fUseLogE (p_list p') = (atoi x (TrimSpaces x v) = 1)"
    using on_spline_end_Next [OF c] b v(2) by simp
  then show ?thesis using v(1) by blast
qed

lemma read_init_set:
  "read_nodes x p ns = Next p' \<or> read_nodes x p ns = Return s p'
     \<Longrightarrow> fInitSet (p_list p) \<subseteq> fInitSet (p_list p')"
proof (induction ns arbitrary: p)
  case Nil
  then show ?case by simp
next
  case (Cons n ns)
  show ?case
  proof (cases "process_node x p n")
    case (Fault e)
    then show ?thesis using Cons.prems by simp
  next
    case (Return s' q)
    then have "q = p" using process_node_Return on_root_Return by blast
    then show ?thesis using Cons.prems Return by auto
  next
    case (Next q)
    then have "fInitSet (p_list p) \<subseteq> fInitSet (p_list q)" by (rule step_init_set)
    moreover have "fInitSet (p_list q) \<subseteq> fInitSet (p_list p')"
      using Cons.prems Next by (intro Cons.IH) simp
    ultimately show ?thesis by blast
  qed
qed

lemma read_uselog:
  "read_nodes x p ns = Next p' \<Longrightarrow> \<forall>n \<in> set ns. \<not> root_start n
     \<Longrightarrow> fUseLogE (p_list p') = fUseLogE (p_list p)"
proof (induction ns arbitrary: p)
  case Nil
  then show ?case by simp
next
  case (Cons n ns)
  from Cons.prems(1) obtain q where
    q: "process_node x p n = Next q" and r: "read_nodes x q ns = Next p'"
    by (auto split: outcome.splits)
  have "fUseLogE (p_list q) = fUseLogE (p_list p)"
    using step_uselog [OF q] Cons.prems(2) by simp
  moreover have "fUseLogE (p_list p') = fUseLogE (p_list q)"
    using Cons.prems(2) by (intro Cons.IH [OF r]) simp
  ultimately show ?case by simp
qed

lemma read_nodes_Next_append:
  "read_nodes x p (a @ b) = Next p' \<Longrightarrow>
     \<exists>q. read_nodes x p a = Next q \<and> read_nodes x q b = Next p'"
  by (simp add: read_nodes_append split: outcome.splits)

lemma step_prolog: "prolog_node n \<Longrightarrow> process_node x p n = Next p"
  by (simp add: prolog_node_def step_defs)

lemma read_prolog: "\<forall>n \<in> set pre. prolog_node n \<Longrightarrow> read_nodes x p pre = Next p"
  by (induction pre) (simp_all add: step_prolog)

lemma step_wrong_root:
  "root_start r \<Longrightarrow> node_name r \<noteq> ''genie_xsec_spline_list''
     \<Longrightarrow> process_node x p r = Return kXmlInvalidRoot p"
  by (simp add: root_start_def step_defs)

text \<open>
  C2 (as amended). For a file that cannot be opened, \<^verbatim>\<open>LoadFromXml\<close> returns with the
  list untouched when \<open>keep\<close> is set, and with the map cleared and everything else
  untouched when it is not: the map is cleared before the reader is opened. The
  counterexample is a list with one spline and a file system without the file: both
  calls return \<open>kXmlOK\<close>, and the call without \<open>keep\<close> returns the list without its
  spline.
\<close>

theorem load_missing_file:
  assumes "readable fs filename = None"
  shows "\<exists>s. LoadFromXml x fs st filename keep
               = Inr (s, if keep then st else st\<lparr>fSplineMap := []\<rparr>)"
  using assms by (simp add: LoadFromXml_def)

theorem load_missing_file_witness:
  "readable ex_fs ''missing.xml'' = None
   \<and> (\<exists>s. LoadFromXml ex_extern ex_fs ex_store1 ''missing.xml'' True
               = Inr (s, if True then ex_store1 else ex_store1\<lparr>fSplineMap := []\<rparr>))"
proof -
  have h: "readable ex_fs ''missing.xml'' = None" by (simp add: io_defs)
  show ?thesis using h load_missing_file [OF h, of ex_extern ex_store1 True] by blast
qed

theorem load_missing_file_counterexample:
  "readable ex_fs ''missing.xml'' = None
   \<and> LoadFromXml ex_extern ex_fs ex_store1 ''missing.xml'' True = Inr (kXmlOK, ex_store1)
   \<and> LoadFromXml ex_extern ex_fs ex_store1 ''missing.xml'' False = Inr (kXmlOK, ex_store0)
   \<and> GetSplineKeys ex_store1 = [ex_key] \<and> GetSplineKeys ex_store0 = []"
  by (simp add: LoadFromXml_def io_defs GetSplineKeys_def ex_store1_def ex_store0_def
        SetLogE_def XSecSplineList_new_def)

text \<open>
  C5. A file opens, the reader presents the nodes of the prolog and then the start of a
  root element whose name is not \<open>genie_xsec_spline_list\<close>: \<^verbatim>\<open>LoadFromXml\<close> returns
  \<open>kXmlInvalidRoot\<close>, with the list unchanged when \<open>keep\<close> is set and with the map
  cleared, and nothing else changed, when it is not.
\<close>

theorem load_invalid_root:
  assumes "readable fs filename = Some (Reader (pre @ r # rest) ret)"
    and "\<forall>n \<in> set pre. prolog_node n"
    and "root_start r" and "node_name r \<noteq> ''genie_xsec_spline_list''"
  shows "LoadFromXml x fs st filename keep
           = Inr (kXmlInvalidRoot, if keep then st else st\<lparr>fSplineMap := []\<rparr>)"
proof -
  have "read_nodes x p (pre @ r # rest) = Return kXmlInvalidRoot p" for p
    using read_prolog [OF assms(2)] step_wrong_root [OF assms(3,4)]
    by (simp add: read_nodes_append)
  then show ?thesis
    using assms(1) by (simp add: LoadFromXml_def pstate_init_def)
qed

theorem load_invalid_root_witness:
  "readable ex_disk_fs ''bad.xml''
     = Some (Reader ([comment_node '' not a spline list '' 0]
                      @ elem_start ''spline_list'' 0 [] # [elem_end ''spline_list'' 0]) 0)
   \<and> list_all prolog_node [comment_node '' not a spline list '' 0]
   \<and> root_start (elem_start ''spline_list'' 0 [])
   \<and> node_name (elem_start ''spline_list'' 0 []) \<noteq> ''genie_xsec_spline_list''
   \<and> LoadFromXml ex_extern ex_disk_fs ex_store1 ''bad.xml'' True
       = Inr (kXmlInvalidRoot, ex_store1)
   \<and> LoadFromXml ex_extern ex_disk_fs ex_store1 ''bad.xml'' False
       = Inr (kXmlInvalidRoot, ex_store1\<lparr>fSplineMap := []\<rparr>)"
proof -
  have a: "readable ex_disk_fs ''bad.xml''
     = Some (Reader ([comment_node '' not a spline list '' 0]
                      @ elem_start ''spline_list'' 0 [] # [elem_end ''spline_list'' 0]) 0)"
    by (simp add: ex_disk_fs_def ex_disk_def ex_bad_doc_def)
  have b: "\<forall>n \<in> set [comment_node '' not a spline list '' 0]. prolog_node n"
    by (simp add: prolog_node_def node_defs kNodeTypeStartElement_def kNodeTypeEndElement_def)
  have c: "root_start (elem_start ''spline_list'' 0 [])"
    by (simp add: root_start_def node_defs kNodeTypeStartElement_def)
  have d: "node_name (elem_start ''spline_list'' 0 []) \<noteq> ''genie_xsec_spline_list''"
    by (simp add: node_defs)
  show ?thesis
    using a b c d load_invalid_root [OF a b c d, of ex_extern ex_store1 True]
      load_invalid_root [OF a b c d, of ex_extern ex_store1 False]
    by (simp add: list_all_iff)
qed

lemma read_nodes_Return: "read_nodes x p ns = Return s q \<Longrightarrow> s = kXmlInvalidRoot"
proof (induction ns arbitrary: p)
  case Nil
  then show ?case by simp
next
  case (Cons n ns)
  show ?case
  proof (cases "process_node x p n")
    case (Fault e)
    then show ?thesis using Cons.prems by simp
  next
    case (Return s' q')
    then have "s' = kXmlInvalidRoot" using process_node_Return on_root_Return by blast
    then show ?thesis using Cons.prems Return by simp
  next
    case (Next q')
    then show ?thesis using Cons.prems Cons.IH [of q'] by simp
  qed
qed

text \<open>
  C9. A file opens and \<^verbatim>\<open>LoadFromXml\<close> returns \<open>kXmlOK\<close>, with or without \<open>keep\<close>; \<open>r\<close>
  is the one start of an element at depth 0 among the nodes, the root. Then the root
  has a \<open>uselog\<close> attribute and the flag of the list is whether \<^verbatim>\<open>atoi\<close> of the trimmed
  attribute is 1, whatever the flag was before.
\<close>

theorem load_sets_uselog:
  assumes "readable fs filename = Some (Reader nodes ret)"
    and "LoadFromXml x fs st filename keep = Inr (kXmlOK, st')"
    and "filter root_start nodes = [r]"
  shows "\<exists>v. map_of (node_attrs r) ''uselog'' = Some v
           \<and> fUseLogE st' = (atoi x (TrimSpaces x v) = 1)"
proof -
  let ?st1 = "if \<not> keep then st\<lparr>fSplineMap := []\<rparr> else st"
  from assms(1,2) obtain p where
    run: "read_nodes x (pstate_init ?st1) nodes = Next p" and st': "p_list p = st'"
    by (auto simp: LoadFromXml_def Let_def dest: read_nodes_Return
          split: outcome.splits if_splits)
  from assms(3) obtain pre rest where
    nodes: "nodes = pre @ r # rest" and
    pre: "\<forall>n \<in> set pre. \<not> root_start n" and r: "root_start r" and
    rest: "filter root_start rest = []"
    by (auto simp: filter_eq_Cons_iff)
  have rest': "\<forall>n \<in> set rest. \<not> root_start n"
    using rest by (simp add: filter_empty_conv)
  from run obtain q1 where
    "read_nodes x (pstate_init ?st1) pre = Next q1" and
    q1: "read_nodes x q1 (r # rest) = Next p"
    unfolding nodes by (blast dest: read_nodes_Next_append)
  from q1 obtain q2 where
    s: "process_node x q1 r = Next q2" and t: "read_nodes x q2 rest = Next p"
    by (auto split: outcome.splits)
  from step_root_uselog [OF s r] obtain v where
    v: "map_of (node_attrs r) ''uselog'' = Some v"
       "fUseLogE (p_list q2) = (atoi x (TrimSpaces x v) = 1)" by blast
  have "fUseLogE (p_list p) = fUseLogE (p_list q2)"
    by (rule read_uselog [OF t rest'])
  then show ?thesis using v st' by auto
qed

theorem load_sets_uselog_witness:
  "readable ex_disk_fs ''empty.xml'' = Some (Reader ex_empty_doc 0)
   \<and> LoadFromXml ex_extern ex_disk_fs ex_store0 ''empty.xml'' True
       = Inr (kXmlOK, ex_store0\<lparr>fUseLogE := True\<rparr>)
   \<and> filter root_start ex_empty_doc
       = [elem_start ''genie_xsec_spline_list'' 0 [(''version'', ''2.00''), (''uselog'', ''1'')]]
   \<and> fUseLogE ex_store0 = False
   \<and> (\<exists>v. map_of (node_attrs (elem_start ''genie_xsec_spline_list'' 0
                  [(''version'', ''2.00''), (''uselog'', ''1'')])) ''uselog'' = Some v
          \<and> fUseLogE (ex_store0\<lparr>fUseLogE := True\<rparr>)
              = (atoi ex_extern (TrimSpaces ex_extern v) = 1))"
proof -
  have a: "readable ex_disk_fs ''empty.xml'' = Some (Reader ex_empty_doc 0)"
    by (simp add: ex_disk_fs_def ex_disk_def)
  have b: "LoadFromXml ex_extern ex_disk_fs ex_store0 ''empty.xml'' True
       = Inr (kXmlOK, ex_store0\<lparr>fUseLogE := True\<rparr>)"
    by (simp add: LoadFromXml_def a ex_empty_doc_def step_root_start step_root_end
          pstate_init_def io_defs)
  have c: "filter root_start ex_empty_doc
       = [elem_start ''genie_xsec_spline_list'' 0 [(''version'', ''2.00''), (''uselog'', ''1'')]]"
    by (simp add: ex_empty_doc_def root_start_def node_defs kNodeTypeStartElement_def)
  have d: "fUseLogE ex_store0 = False"
    by (simp add: ex_store0_def SetLogE_def)
  show ?thesis
    using a b c d load_sets_uselog [OF a b c] by blast
qed

lemma LoadFromXml_init_set:
  assumes "LoadFromXml x fs st f keep = Inr (s, st2)"
  shows "fInitSet st \<subseteq> fInitSet st2"
proof (cases "readable fs f")
  case None
  then show ?thesis using assms by (auto simp: LoadFromXml_def split: if_splits)
next
  case (Some rd)
  obtain nodes ret where rd: "rd = Reader nodes ret" by (cases rd)
  let ?st1 = "if \<not> keep then st\<lparr>fSplineMap := []\<rparr> else st"
  from assms Some rd obtain p s' where
    "read_nodes x (pstate_init ?st1) nodes = Next p
       \<or> read_nodes x (pstate_init ?st1) nodes = Return s' p" and "p_list p = st2"
    by (auto simp: LoadFromXml_def Let_def split: outcome.splits if_splits)
  then have "fInitSet (p_list (pstate_init ?st1)) \<subseteq> fInitSet st2"
    using read_init_set [of x "pstate_init ?st1" nodes p s'] by auto
  then show ?thesis by (simp add: pstate_init_def split: if_splits)
qed

lemma save_splines_initial:
  "fst ` set m \<subseteq> init \<Longrightarrow> save_splines x init False m = []"
  by (induction m) auto

text \<open>
  C10. No operation takes a key out of the initial set: \<^verbatim>\<open>CreateSpline\<close> and the setters
  leave the set as it is, and \<^verbatim>\<open>LoadFromXml\<close>, with or without \<open>keep\<close> and whatever status
  it returns, returns a set that contains the old one. So a save without the initially
  loaded splines writes no spline of a map whose keys are all in the set, also when a
  key was created again after a load without \<open>keep\<close> had cleared it from the map.
\<close>

theorem init_set_never_shrinks:
  "(CreateSpline y st alg ia n lo hi = Inr (st1, ia1) \<longrightarrow> fInitSet st1 = fInitSet st)
   \<and> fInitSet (SetLogE st on) = fInitSet st
   \<and> fInitSet (SetNKnots st nk) = fInitSet st
   \<and> fInitSet (SetMinE st Ev) = fInitSet st
   \<and> fInitSet (SetMaxE st Ev) = fInitSet st
   \<and> (LoadFromXml x fs st f keep = Inr (s, st2) \<longrightarrow> fInitSet st \<subseteq> fInitSet st2)
   \<and> (fst ` set m \<subseteq> fInitSet st \<longrightarrow> save_splines x (fInitSet st) False m = [])"
proof -
  have "CreateSpline y st alg ia n lo hi = Inr (st1, ia1) \<longrightarrow> fInitSet st1 = fInitSet st"
    by (auto simp: CreateSpline_def split: sum.splits)
  moreover have "fInitSet (SetNKnots st nk) = fInitSet st"
    by (simp add: SetNKnots_def Let_def)
  moreover have "fInitSet (SetMinE st Ev) = fInitSet st" "fInitSet (SetMaxE st Ev) = fInitSet st"
    by (simp_all add: SetMinE_def SetMaxE_def)
  ultimately show ?thesis
    using LoadFromXml_init_set [of x fs st f keep s st2] save_splines_initial [of m "fInitSet st" x]
    by (simp add: SetLogE_def)
qed

theorem init_set_never_shrinks_witness:
  "LoadFromXml ex_extern ex_files ex_storeA ''B.xml'' False = Inr (kXmlOK, ex_storeB)
   \<and> fInitSet ex_storeA \<subseteq> fInitSet ex_storeB
   \<and> ex_key \<in> fInitSet ex_storeB \<and> \<not> SplineExists ex_storeB ex_key
   \<and> CreateSpline ex_extern ex_storeB (Some ex_alg) (Some ex_interaction) 3 (Fin 1) (Fin 3)
       = Inr (ex_storeC, ex_ia 3)
   \<and> fInitSet ex_storeC = fInitSet ex_storeB
   \<and> fst ` set (fSplineMap ex_storeC) \<subseteq> fInitSet ex_storeC
   \<and> save_splines ex_extern (fInitSet ex_storeC) False (fSplineMap ex_storeC) = []"
proof -
  have c: "CreateSpline ex_extern ex_storeB (Some ex_alg) (Some ex_interaction) 3 (Fin 1) (Fin 3)
       = Inr (ex_storeC, ex_ia 3)"
    by (simp add: run_defs ex_defs ex2_defs io_defs)
  have k: "ex_key \<in> fInitSet ex_storeB \<and> \<not> SplineExists ex_storeB ex_key"
    by (simp add: SplineExists_def ex_defs ex2_defs)
  have m: "fst ` set (fSplineMap ex_storeC) \<subseteq> fInitSet ex_storeC"
    by (simp add: ex_storeC_def)
  have i1: "fInitSet ex_storeC = fInitSet ex_storeB"
    using c init_set_never_shrinks [where y = ex_extern and st = ex_storeB
        and alg = "Some ex_alg" and ia = "Some ex_interaction" and n = 3 and lo = "Fin 1"
        and hi = "Fin 3" and ?st1.0 = ex_storeC and ?ia1.0 = "ex_ia 3" and on = True
        and nk = 0 and Ev = NaN and x = ex_extern and fs = ex_files and f = "''B.xml''"
        and keep = False and s = kXmlOK and ?st2.0 = ex_storeB and m = "[]"]
    by (simp only: simp_thms)
  have i2: "fInitSet ex_storeA \<subseteq> fInitSet ex_storeB"
    by (simp add: ex_storeA_def ex_storeB_def)
  have i3: "save_splines ex_extern (fInitSet ex_storeC) False (fSplineMap ex_storeC) = []"
    by (rule save_splines_initial [OF m])
  show ?thesis
    using ex_loadB c k m i1 i2 i3 by (simp only: simp_thms)
qed

end
